theory Spec2Isabelle
  imports Main "HOL-Library.Word"
begin

unbundle bit_operations_syntax

text \<open>
  A shallow embedding of the external-interrupt support of
  \<^verbatim>\<open>drivers/pinctrl/samsung/pinctrl-exynos.c\<close> and of the stack dump serialization of
  \<^verbatim>\<open>lib/dump_stack.c\<close>, with the properties its specification states. The first part
  translates the source; the second fixes the vocabulary of the specification and concrete
  inputs; the third proves the properties.
\<close>

section \<open>Data model\<close>

type_synonym u32 = "32 word"

text \<open>
  The constants of \<^verbatim>\<open>include/linux/irq.h\<close> that \<^verbatim>\<open>pinctrl-exynos.c\<close> uses. The header
  is not among the modelled files, so its values are a parameter of every function that uses
  them.
\<close>

record irq_hdr =
  IRQ_TYPE_EDGE_RISING :: u32
  IRQ_TYPE_EDGE_FALLING :: u32
  IRQ_TYPE_EDGE_BOTH :: u32
  IRQ_TYPE_LEVEL_HIGH :: u32
  IRQ_TYPE_LEVEL_LOW :: u32
  IRQ_TYPE_LEVEL_MASK :: u32

text \<open>
  The macros of \<^verbatim>\<open>pinctrl-exynos.h\<close>, a parameter for the same reason. Register offsets
  and codes are 32-bit values, field lengths are shift counts, and the two function-like
  macros are functions.
\<close>

record exynos_hdr = irq_hdr +
  EXYNOS_GPIO_ECON_OFFSET :: u32
  EXYNOS_GPIO_EFLTCON_OFFSET :: u32
  EXYNOS_GPIO_EMASK_OFFSET :: u32
  EXYNOS_GPIO_EPEND_OFFSET :: u32
  EXYNOS_SVC_OFFSET :: u32
  EXYNOS_SVC_GROUP :: "u32 \<Rightarrow> u32"
  EXYNOS_SVC_NUM_MASK :: u32
  EXYNOS_EINT_LEVEL_LOW :: u32
  EXYNOS_EINT_LEVEL_HIGH :: u32
  EXYNOS_EINT_EDGE_FALLING :: u32
  EXYNOS_EINT_EDGE_RISING :: u32
  EXYNOS_EINT_EDGE_BOTH :: u32
  EXYNOS_EINT_CON_MASK :: u32
  EXYNOS_EINT_CON_LEN :: nat
  EXYNOS_EINT_FLTCON_EN :: u32
  EXYNOS_EINT_FLTCON_SEL :: u32
  EXYNOS_EINT_FLTCON_WIDTH :: "u32 \<Rightarrow> u32"
  EXYNOS_EINT_FLTCON_MASK :: u32
  EXYNOS_EINT_FLTCON_LEN :: nat

text \<open>
  An instance of the header, used wherever a statement is evaluated at a concrete input:
  the trigger types of \<^verbatim>\<open>include/linux/irq.h\<close> (rising 1, falling 2, both edges 3,
  level high 4, level low 8) and the layout of the Exynos external-interrupt block (4-bit
  trigger fields; 8-bit filter fields with the enable bit 7, the select bit 6 and a 6-bit
  width; a service register with the pin in bits 0 to 2 and the group in bits 3 to 7). The
  general theorems hold for every header that meets their stated conditions.
\<close>

definition kernel_hdr :: exynos_hdr where
  "kernel_hdr = \<lparr>
     IRQ_TYPE_EDGE_RISING = 1, IRQ_TYPE_EDGE_FALLING = 2, IRQ_TYPE_EDGE_BOTH = 3,
     IRQ_TYPE_LEVEL_HIGH = 4, IRQ_TYPE_LEVEL_LOW = 8, IRQ_TYPE_LEVEL_MASK = 12,
     EXYNOS_GPIO_ECON_OFFSET = 0x700, EXYNOS_GPIO_EFLTCON_OFFSET = 0x800,
     EXYNOS_GPIO_EMASK_OFFSET = 0x900, EXYNOS_GPIO_EPEND_OFFSET = 0xA00,
     EXYNOS_SVC_OFFSET = 0xB08,
     EXYNOS_SVC_GROUP = (\<lambda>x. drop_bit 3 x AND 0x1f),
     EXYNOS_SVC_NUM_MASK = 7,
     EXYNOS_EINT_LEVEL_LOW = 0, EXYNOS_EINT_LEVEL_HIGH = 1,
     EXYNOS_EINT_EDGE_FALLING = 2, EXYNOS_EINT_EDGE_RISING = 3,
     EXYNOS_EINT_EDGE_BOTH = 4,
     EXYNOS_EINT_CON_MASK = 0xF, EXYNOS_EINT_CON_LEN = 4,
     EXYNOS_EINT_FLTCON_EN = 0x80, EXYNOS_EINT_FLTCON_SEL = 0x40,
     EXYNOS_EINT_FLTCON_WIDTH = (\<lambda>x. x AND 0x3f),
     EXYNOS_EINT_FLTCON_MASK = 0xFF, EXYNOS_EINT_FLTCON_LEN = 8 \<rparr>"

datatype eint_type = EINT_TYPE_NONE | EINT_TYPE_GPIO | EINT_TYPE_WKUP | EINT_TYPE_WKUP_MUX

text \<open>\<^verbatim>\<open>struct exynos_eint_gpio_save\<close>; the fields carry a prefix because the chip
  structure below has a field \<^verbatim>\<open>eint_con\<close> too.\<close>

record exynos_eint_gpio_save =
  save_eint_con :: u32
  save_eint_fltcon0 :: u32
  save_eint_fltcon1 :: u32

text \<open>
  Modelled from the spec: the virtual-line domain of the generic interrupt framework
  (\<^verbatim>\<open>struct irq_domain\<close>, \<^verbatim>\<open>irq_linear_revmap\<close>, \<^verbatim>\<open>irq_find_mapping\<close>), which
  translates a bank's pin index to its virtual line. The domain is its linear reverse map;
  the entry 0, or an index beyond the map, means that no virtual line is mapped, and
  \<^verbatim>\<open>irq_find_mapping\<close> finds no line in a null domain.
\<close>

type_synonym irq_domain = "nat list"

definition irq_linear_revmap :: "irq_domain \<Rightarrow> nat \<Rightarrow> nat" where
  "irq_linear_revmap domain hw = (if hw < length domain then domain ! hw else 0)"

definition irq_find_mapping :: "irq_domain option \<Rightarrow> nat \<Rightarrow> nat" where
  "irq_find_mapping domain hw =
     (case domain of None \<Rightarrow> 0 | Some d \<Rightarrow> irq_linear_revmap d hw)"

text \<open>
  \<^verbatim>\<open>struct samsung_pin_bank\<close>, the fields the modelled functions read or write. A null
  \<^verbatim>\<open>irq_domain\<close> or \<^verbatim>\<open>soc_priv\<close> pointer is \<open>None\<close>.
\<close>

record samsung_pin_bank =
  nr_pins :: nat
  eint_type :: eint_type
  eint_offset :: u32
  irq_domain :: "irq_domain option"
  soc_priv :: "exynos_eint_gpio_save option"

text \<open>\<^verbatim>\<open>struct exynos_irq_chip\<close>: the three register-group offsets of a chip variant.\<close>

record exynos_irq_chip =
  eint_con :: u32
  eint_mask :: u32
  eint_pend :: u32

definition exynos_gpio_irq_chip :: "exynos_hdr \<Rightarrow> exynos_irq_chip" where
  "exynos_gpio_irq_chip h = \<lparr> eint_con = EXYNOS_GPIO_ECON_OFFSET h,
     eint_mask = EXYNOS_GPIO_EMASK_OFFSET h, eint_pend = EXYNOS_GPIO_EPEND_OFFSET h \<rparr>"

definition exynos_wkup_irq_chip :: "exynos_hdr \<Rightarrow> exynos_irq_chip" where
  "exynos_wkup_irq_chip h = \<lparr> eint_con = EXYNOS_GPIO_ECON_OFFSET h,
     eint_mask = EXYNOS_GPIO_EMASK_OFFSET h, eint_pend = EXYNOS_GPIO_EPEND_OFFSET h \<rparr>"

text \<open>
  \<^verbatim>\<open>struct irq_data\<close> as the chip operations see it: the pin index \<^verbatim>\<open>hwirq\<close>, the
  virtual line \<^verbatim>\<open>irq\<close>, the chip and bank it belongs to, and the trigger type that
  \<^verbatim>\<open>irqd_get_trigger_type\<close> returns.
\<close>

record irq_data =
  hwirq :: nat
  irq :: nat
  irq_chip :: exynos_irq_chip
  chip_data :: samsung_pin_bank
  trigger_type :: u32

definition irqd_get_trigger_type :: "irq_data \<Rightarrow> u32" where
  "irqd_get_trigger_type irqd = trigger_type irqd"

datatype flow_handler = handle_edge_irq | handle_level_irq

datatype io_event = Writel nat u32

text \<open>
  The machine state. Registers are addressed by their byte offset from \<^verbatim>\<open>virt_base\<close>;
  \<open>io_log\<close> records every \<^verbatim>\<open>writel\<close> in program order, \<open>flow\<close> is the flow handler
  the generic framework holds for each virtual line, \<open>dispatched\<close> lists the virtual lines
  passed to \<^verbatim>\<open>generic_handle_irq\<close> in call order, and \<open>exynos_eint_wake_mask\<close> is the
  file-scope variable of that name. A register is plain storage here: a read returns the
  value last written.
\<close>

record sys =
  regs :: "nat \<Rightarrow> u32"
  io_log :: "io_event list"
  flow :: "nat \<Rightarrow> flow_handler option"
  dispatched :: "nat list"
  exynos_eint_wake_mask :: u32

definition readl :: "sys \<Rightarrow> nat \<Rightarrow> u32" where
  "readl s a = regs s a"

definition writel :: "u32 \<Rightarrow> nat \<Rightarrow> sys \<Rightarrow> sys" where
  "writel v a s = s\<lparr> regs := (regs s)(a := v), io_log := io_log s @ [Writel a v] \<rparr>"

text \<open>Modelled from the spec: the generic dispatch of one virtual line, an opaque event
  of the framework that is recorded in call order.\<close>

definition generic_handle_irq :: "nat \<Rightarrow> sys \<Rightarrow> sys" where
  "generic_handle_irq virq s = s\<lparr> dispatched := dispatched s @ [virq] \<rparr>"

text \<open>Modelled from the spec: reprogramming the framework's handling primitive of a
  virtual line (\<^verbatim>\<open>__irq_set_handler_locked\<close>).\<close>

definition irq_set_handler_locked :: "nat \<Rightarrow> flow_handler \<Rightarrow> sys \<Rightarrow> sys" where
  "irq_set_handler_locked virq hdl s = s\<lparr> flow := (flow s)(virq \<mapsto> hdl) \<rparr>"

datatype errno = EINVAL | ENXIO | ENOMEM | ENODEV

section \<open>Chip operations\<close>

text \<open>
  The spin lock around each read-modify-write has no effect in a sequential model and is
  left out. \<^verbatim>\<open>1 << irqd->hwirq\<close> is a 32-bit shift, defined for \<open>hwirq < 32\<close>.
\<close>

definition exynos_irq_mask :: "irq_data \<Rightarrow> sys \<Rightarrow> sys" where
  "exynos_irq_mask irqd s =
     (let reg_mask = unat (eint_mask (irq_chip irqd) + eint_offset (chip_data irqd));
          mask = readl s reg_mask;
          mask = mask OR push_bit (hwirq irqd) 1
      in writel mask reg_mask s)"

definition exynos_irq_ack :: "irq_data \<Rightarrow> sys \<Rightarrow> sys" where
  "exynos_irq_ack irqd s =
     (let reg_pend = unat (eint_pend (irq_chip irqd) + eint_offset (chip_data irqd))
      in writel (push_bit (hwirq irqd) 1) reg_pend s)"

definition exynos_irq_unmask :: "exynos_hdr \<Rightarrow> irq_data \<Rightarrow> sys \<Rightarrow> sys" where
  "exynos_irq_unmask h irqd s =
     (let reg_mask = unat (eint_mask (irq_chip irqd) + eint_offset (chip_data irqd));
          s = (if irqd_get_trigger_type irqd AND IRQ_TYPE_LEVEL_MASK h \<noteq> 0
               then exynos_irq_ack irqd s else s);
          mask = readl s reg_mask;
          mask = mask AND NOT (push_bit (hwirq irqd) 1)
      in writel mask reg_mask s)"

text \<open>
  The \<^verbatim>\<open>switch\<close> selects by equality with the case labels, which C requires to be
  pairwise distinct; the chain below tests them in the order of the source.
\<close>

definition trig_type_of :: "exynos_hdr \<Rightarrow> u32 \<Rightarrow> u32 option" where
  "trig_type_of h type =
     (if type = IRQ_TYPE_EDGE_RISING h then Some (EXYNOS_EINT_EDGE_RISING h)
      else if type = IRQ_TYPE_EDGE_FALLING h then Some (EXYNOS_EINT_EDGE_FALLING h)
      else if type = IRQ_TYPE_EDGE_BOTH h then Some (EXYNOS_EINT_EDGE_BOTH h)
      else if type = IRQ_TYPE_LEVEL_HIGH h then Some (EXYNOS_EINT_LEVEL_HIGH h)
      else if type = IRQ_TYPE_LEVEL_LOW h then Some (EXYNOS_EINT_LEVEL_LOW h)
      else None)"

definition exynos_irq_set_type ::
  "exynos_hdr \<Rightarrow> irq_data \<Rightarrow> u32 \<Rightarrow> sys \<Rightarrow> (errno + unit) \<times> sys" where
  "exynos_irq_set_type h irqd type s =
     (let shift = EXYNOS_EINT_CON_LEN h * hwirq irqd;
          reg_con = unat (eint_con (irq_chip irqd) + eint_offset (chip_data irqd))
      in case trig_type_of h type of
           None \<Rightarrow> (Inl EINVAL, s)
         | Some trig_type \<Rightarrow>
             (let s = (if type AND IRQ_TYPE_EDGE_BOTH h \<noteq> 0
                       then irq_set_handler_locked (irq irqd) handle_edge_irq s
                       else irq_set_handler_locked (irq irqd) handle_level_irq s);
                  con = readl s reg_con;
                  con = con AND NOT (push_bit shift (EXYNOS_EINT_CON_MASK h));
                  con = con OR push_bit shift trig_type
              in (Inr (), writel con reg_con s)))"


section \<open>Primary GPIO dispatch\<close>

datatype irqreturn = IRQ_NONE | IRQ_HANDLED

text \<open>
  \<^verbatim>\<open>exynos_eint_gpio_irq\<close>. The pin-bank table is a list; \<^verbatim>\<open>bank += (group - 1)\<close>
  beyond its end, and a null \<^verbatim>\<open>irq_domain\<close> handed to \<^verbatim>\<open>irq_linear_revmap\<close>, are
  invalid memory accesses in the source and \<open>None\<close> here.
\<close>

definition exynos_eint_gpio_irq ::
  "exynos_hdr \<Rightarrow> samsung_pin_bank list \<Rightarrow> sys \<Rightarrow> (irqreturn \<times> sys) option" where
  "exynos_eint_gpio_irq h pin_banks s =
     (let svc = readl s (unat (EXYNOS_SVC_OFFSET h));
          group = EXYNOS_SVC_GROUP h svc;
          pin = svc AND EXYNOS_SVC_NUM_MASK h
      in if group = 0 then Some (IRQ_HANDLED, s)
         else if unat group - 1 < length pin_banks then
           (case irq_domain (pin_banks ! (unat group - 1)) of
              None \<Rightarrow> None
            | Some domain \<Rightarrow>
                (let virq = irq_linear_revmap domain (unat pin)
                 in if virq = 0 then Some (IRQ_NONE, s)
                    else Some (IRQ_HANDLED, generic_handle_irq virq s)))
         else None)"

section \<open>Filter configuration\<close>

text \<open>
  \<^verbatim>\<open>exynos_eint_flt_config\<close>. The three \<^verbatim>\<open>int\<close> arguments are taken as 32-bit values
  (only their being zero and their bit pattern are used). \<open>flt_con_of\<close> is the control word
  built before the loop, \<open>flt_config_step\<close> the loop body for one value of \<^verbatim>\<open>i\<close>;
  the loop runs \<^verbatim>\<open>i\<close> from 0 up to \<^verbatim>\<open>bank->nr_pins >> 1\<close>. The shifts are defined in C
  for \<open>shift < 32\<close>.
\<close>

definition flt_con_of :: "exynos_hdr \<Rightarrow> u32 \<Rightarrow> u32 \<Rightarrow> u32 \<Rightarrow> u32" where
  "flt_con_of h en sel width =
     (let flt_con = 0;
          flt_con = (if en \<noteq> 0 then flt_con OR EXYNOS_EINT_FLTCON_EN h else flt_con);
          flt_con = (if sel \<noteq> 0 then flt_con OR EXYNOS_EINT_FLTCON_SEL h else flt_con)
      in flt_con OR EXYNOS_EINT_FLTCON_WIDTH h width)"

definition flt_reg_of :: "exynos_hdr \<Rightarrow> samsung_pin_bank \<Rightarrow> u32" where
  "flt_reg_of h bank = EXYNOS_GPIO_EFLTCON_OFFSET h + 2 * eint_offset bank"

definition flt_config_step :: "exynos_hdr \<Rightarrow> u32 \<Rightarrow> u32 \<Rightarrow> nat \<Rightarrow> sys \<Rightarrow> sys" where
  "flt_config_step h flt_reg flt_con i s =
     (let shift = i * EXYNOS_EINT_FLTCON_LEN h;
          val = readl s (unat flt_reg);
          val = val AND NOT (push_bit shift (EXYNOS_EINT_FLTCON_MASK h));
          val = val OR push_bit shift flt_con;
          s = writel val (unat flt_reg) s
      in writel val (unat flt_reg + 4) s)"

definition exynos_eint_flt_config ::
  "exynos_hdr \<Rightarrow> u32 \<Rightarrow> u32 \<Rightarrow> u32 \<Rightarrow> samsung_pin_bank \<Rightarrow> sys \<Rightarrow> sys" where
  "exynos_eint_flt_config h en sel width bank s =
     fold (flt_config_step h (flt_reg_of h bank) (flt_con_of h en sel width))
       [0 ..< drop_bit 1 (nr_pins bank)] s"

section \<open>Wake mask\<close>

text \<open>The initializer of the file-scope variable \<^verbatim>\<open>exynos_eint_wake_mask\<close>.\<close>

definition exynos_eint_wake_mask_init :: u32 where
  "exynos_eint_wake_mask_init = 0xffffffff"

definition exynos_get_eint_wake_mask :: "sys \<Rightarrow> u32" where
  "exynos_get_eint_wake_mask s = exynos_eint_wake_mask s"

text \<open>
  \<^verbatim>\<open>exynos_wkup_irq_set_wake\<close>, which always returns 0. \<^verbatim>\<open>bit\<close> is an
  \<^verbatim>\<open>unsigned long\<close>, 64 bits wide on the arm64 targets of this tree; the shift count is
  \<^verbatim>\<open>2 * bank->eint_offset\<close>, computed in 32 bits, plus \<^verbatim>\<open>hwirq\<close>, and the shift is
  defined for a count below 64. The compound assignments widen the 32-bit mask, combine it
  with \<^verbatim>\<open>bit\<close> and truncate the result.
\<close>

definition exynos_wkup_irq_set_wake :: "irq_data \<Rightarrow> u32 \<Rightarrow> sys \<Rightarrow> sys" where
  "exynos_wkup_irq_set_wake irqd on s =
     (let bit :: 64 word = push_bit (unat (2 * eint_offset (chip_data irqd)) + hwirq irqd) 1
      in if on = 0
         then s\<lparr> exynos_eint_wake_mask := ucast (ucast (exynos_eint_wake_mask s) OR bit) \<rparr>
         else s\<lparr> exynos_eint_wake_mask := ucast (ucast (exynos_eint_wake_mask s) AND NOT bit) \<rparr>)"

section \<open>Muxed wakeup dispatch\<close>

text \<open>
  Modelled from the spec: \<^verbatim>\<open>fls\<close>, the kernel's find-last-set, which gives the position
  of the highest set bit counted from 1, and 0 for the value 0.
\<close>

fun fls_below :: "nat \<Rightarrow> u32 \<Rightarrow> nat" where
  "fls_below 0 x = 0"
| "fls_below (Suc n) x = (if bit x n then Suc n else fls_below n x)"

definition fls :: "u32 \<Rightarrow> nat" where
  "fls x = fls_below 32 x"

lemma fls_below_bit: "fls_below n x \<noteq> 0 \<Longrightarrow> bit x (fls_below n x - 1)"
  by (induction n) (auto split: if_splits)

lemma fls_below_zero: "fls_below n x = 0 \<Longrightarrow> k < n \<Longrightarrow> \<not> bit x k"
  by (induction n) (auto split: if_splits simp add: less_Suc_eq)

lemma fls_nonzero: "x \<noteq> 0 \<Longrightarrow> fls x \<noteq> 0"
proof
  assume x: "x \<noteq> 0" and z: "fls x = 0"
  have "\<not> bit x k" for k
  proof (cases "k < 32")
    case True
    with z show ?thesis by (auto simp add: fls_def dest: fls_below_zero)
  next
    case False
    then show ?thesis by (auto dest: bit_imp_le_length)
  qed
  then have "x = 0" by (simp add: bit_eq_iff)
  with x show False by simp
qed

lemma clear_top_bit_less:
  fixes pend :: u32
  assumes "pend \<noteq> 0"
  shows "unat (pend AND NOT (push_bit (fls pend - 1) 1)) < unat pend"
proof -
  let ?k = "fls pend - 1"
  have b: "bit pend ?k"
    using fls_nonzero [OF assms] fls_below_bit [of 32 pend] by (simp add: fls_def)
  then have k: "?k < 32" by (auto dest: bit_imp_le_length)
  have "\<not> bit (pend AND NOT (push_bit ?k 1)) ?k"
    using k by (simp add: bit_simps)
  with b have "pend AND NOT (push_bit ?k 1) \<noteq> pend" by metis
  moreover have "pend AND NOT (push_bit ?k 1) \<le> pend"
    by (rule word_and_le2)
  ultimately have "pend AND NOT (push_bit ?k 1) < pend" by (simp add: less_le)
  then show ?thesis by (simp only: word_less_nat_alt)
qed

lemma clear_top_bit_measure:
  fixes pend :: u32
  shows "pend \<noteq> 0 \<Longrightarrow> unat (pend AND NOT (2 ^ (fls pend - Suc 0))) < unat pend"
  using clear_top_bit_less [of pend] by simp

text \<open>
  \<^verbatim>\<open>exynos_irq_demux_eint\<close>. The working value \<^verbatim>\<open>pend\<close> is an \<^verbatim>\<open>unsigned long\<close>
  that the caller computes from two 32-bit register values, so it is a 32-bit value
  throughout; \<^verbatim>\<open>~(1 << irq)\<close> keeps every other bit of it.
\<close>

function exynos_irq_demux_eint :: "u32 \<Rightarrow> irq_domain option \<Rightarrow> sys \<Rightarrow> sys" where
  "exynos_irq_demux_eint pend domain s =
     (if pend \<noteq> 0 then
        (let irq = fls pend - 1;
             s = generic_handle_irq (irq_find_mapping domain irq) s;
             pend = pend AND NOT (push_bit irq 1)
         in exynos_irq_demux_eint pend domain s)
      else s)"
  by pat_completeness auto
termination
  by (relation "measure (\<lambda>(pend, domain, s). unat pend)") (auto simp add: clear_top_bit_measure)

declare exynos_irq_demux_eint.simps [simp del]

text \<open>
  \<^verbatim>\<open>exynos_irq_demux_eint16_31\<close>. The handler data \<^verbatim>\<open>struct exynos_muxed_weint_data\<close>
  (a count and that many bank pointers) is the list of its banks; the loop visits them in
  order. The handler is bound only to a group of at least one bank
  (\<^verbatim>\<open>exynos_eint_wkup_init\<close> returns before binding it when \<^verbatim>\<open>muxed_banks\<close> is 0),
  so the read of \<^verbatim>\<open>eintd->banks[0]->drvdata\<close> is within the group; on the empty list the
  model does nothing. \<^verbatim>\<open>chained_irq_enter\<close> and \<^verbatim>\<open>chained_irq_exit\<close> act on the
  parent chip only and are left out.
\<close>

definition demux_bank :: "exynos_hdr \<Rightarrow> samsung_pin_bank \<Rightarrow> sys \<Rightarrow> sys" where
  "demux_bank h b s =
     (let pend = readl s (unat (EXYNOS_GPIO_EPEND_OFFSET h) + unat (eint_offset b));
          mask = readl s (unat (EXYNOS_GPIO_EMASK_OFFSET h) + unat (eint_offset b))
      in exynos_irq_demux_eint (pend AND NOT mask) (irq_domain b) s)"

definition exynos_irq_demux_eint16_31 ::
  "exynos_hdr \<Rightarrow> samsung_pin_bank list \<Rightarrow> sys \<Rightarrow> sys" where
  "exynos_irq_demux_eint16_31 h eintd s = fold (demux_bank h) eintd s"

section \<open>Suspend and resume\<close>

text \<open>
  \<^verbatim>\<open>exynos_pinctrl_suspend_bank\<close> and \<^verbatim>\<open>exynos_pinctrl_resume_bank\<close>. The save slot is
  reached through \<^verbatim>\<open>bank->soc_priv\<close>; a null pointer there is an invalid access in the
  source and \<open>None\<close> here. The register addresses are pointer arithmetic on
  \<^verbatim>\<open>virt_base\<close>, with \<^verbatim>\<open>2 * bank->eint_offset\<close> computed in 32 bits. The
  \<^verbatim>\<open>pr_debug\<close> calls are left out.
\<close>

definition exynos_pinctrl_suspend_bank ::
  "exynos_hdr \<Rightarrow> samsung_pin_bank \<Rightarrow> sys \<Rightarrow> samsung_pin_bank option" where
  "exynos_pinctrl_suspend_bank h bank s =
     (case soc_priv bank of
        None \<Rightarrow> None
      | Some save \<Rightarrow>
          (let save = save\<lparr> save_eint_con :=
                 readl s (unat (EXYNOS_GPIO_ECON_OFFSET h) + unat (eint_offset bank)) \<rparr>;
               save = save\<lparr> save_eint_fltcon0 :=
                 readl s (unat (EXYNOS_GPIO_EFLTCON_OFFSET h) + unat (2 * eint_offset bank)) \<rparr>;
               save = save\<lparr> save_eint_fltcon1 :=
                 readl s (unat (EXYNOS_GPIO_EFLTCON_OFFSET h) + unat (2 * eint_offset bank) + 4) \<rparr>
           in Some (bank\<lparr> soc_priv := Some save \<rparr>)))"

definition exynos_pinctrl_resume_bank ::
  "exynos_hdr \<Rightarrow> samsung_pin_bank \<Rightarrow> sys \<Rightarrow> sys option" where
  "exynos_pinctrl_resume_bank h bank s =
     (case soc_priv bank of
        None \<Rightarrow> None
      | Some save \<Rightarrow>
          (let s = writel (save_eint_con save)
                     (unat (EXYNOS_GPIO_ECON_OFFSET h) + unat (eint_offset bank)) s;
               s = writel (save_eint_fltcon0 save)
                     (unat (EXYNOS_GPIO_EFLTCON_OFFSET h) + unat (2 * eint_offset bank)) s
           in Some (writel (save_eint_fltcon1 save)
                     (unat (EXYNOS_GPIO_EFLTCON_OFFSET h) + unat (2 * eint_offset bank) + 4) s)))"

text \<open>
  \<^verbatim>\<open>exynos_pinctrl_suspend\<close> and \<^verbatim>\<open>exynos_pinctrl_resume\<close>: the loop over the pin-bank
  table, as recursion over the list of banks. Suspend returns the table with the save slots
  filled, and the machine state.
\<close>

fun exynos_pinctrl_suspend ::
  "exynos_hdr \<Rightarrow> samsung_pin_bank list \<Rightarrow> sys \<Rightarrow> (samsung_pin_bank list \<times> sys) option" where
  "exynos_pinctrl_suspend h [] s = Some ([], s)"
| "exynos_pinctrl_suspend h (bank # rest) s =
     (if eint_type bank = EINT_TYPE_GPIO then
        (case exynos_pinctrl_suspend_bank h bank s of
           None \<Rightarrow> None
         | Some bank' \<Rightarrow>
             (case exynos_pinctrl_suspend h rest s of
                None \<Rightarrow> None
              | Some (rest', s') \<Rightarrow> Some (bank' # rest', s')))
      else if eint_type bank = EINT_TYPE_WKUP \<or> eint_type bank = EINT_TYPE_WKUP_MUX then
        (case exynos_pinctrl_suspend h rest
                (exynos_eint_flt_config h (EXYNOS_EINT_FLTCON_EN h) 0 0 bank s) of
           None \<Rightarrow> None
         | Some (rest', s') \<Rightarrow> Some (bank # rest', s'))
      else
        (case exynos_pinctrl_suspend h rest s of
           None \<Rightarrow> None
         | Some (rest', s') \<Rightarrow> Some (bank # rest', s')))"

fun exynos_pinctrl_resume ::
  "exynos_hdr \<Rightarrow> samsung_pin_bank list \<Rightarrow> sys \<Rightarrow> sys option" where
  "exynos_pinctrl_resume h [] s = Some s"
| "exynos_pinctrl_resume h (bank # rest) s =
     (if eint_type bank = EINT_TYPE_GPIO then
        (case exynos_pinctrl_resume_bank h bank s of
           None \<Rightarrow> None
         | Some s' \<Rightarrow> exynos_pinctrl_resume h rest s')
      else if eint_type bank = EINT_TYPE_WKUP \<or> eint_type bank = EINT_TYPE_WKUP_MUX then
        exynos_pinctrl_resume h rest
          (exynos_eint_flt_config h (EXYNOS_EINT_FLTCON_EN h) (EXYNOS_EINT_FLTCON_SEL h) 0 bank s)
      else exynos_pinctrl_resume h rest s)"

section \<open>Initialization\<close>

text \<open>
  Modelled from the spec: the collaborators that the two initialization entry points
  consult, as an environment. \<open>irq_available\<close> is \<^verbatim>\<open>d->irq\<close> being non-zero,
  \<open>request_irq_ok\<close> the success of \<^verbatim>\<open>devm_request_irq\<close>, \<open>domain_add i\<close> the domain that
  \<^verbatim>\<open>irq_domain_add_linear\<close> creates for the bank at index \<open>i\<close> (\<open>None\<close> when it fails),
  \<open>kzalloc_ok i\<close> the success of the \<^verbatim>\<open>devm_kzalloc\<close> for that bank, \<open>wkup_node\<close> the
  presence of a wakeup child node, \<open>has_interrupts i\<close> the presence of an
  \<^verbatim>\<open>interrupts\<close> property in the bank's node, \<open>irq_of_pin i idx\<close> the physical line
  that \<^verbatim>\<open>irq_of_parse_and_map\<close> gives pin \<open>idx\<close> of the bank (0 when there is none),
  \<open>muxed_irq\<close> the shared line of the wakeup node, and \<open>muxed_alloc_ok\<close> the success of
  the allocation of the muxed group.
\<close>

record init_env =
  irq_available :: bool
  request_irq_ok :: bool
  domain_add :: "nat \<Rightarrow> irq_domain option"
  kzalloc_ok :: "nat \<Rightarrow> bool"
  wkup_node :: bool
  has_interrupts :: "nat \<Rightarrow> bool"
  irq_of_pin :: "nat \<Rightarrow> nat \<Rightarrow> nat"
  muxed_irq :: nat
  muxed_alloc_ok :: bool

text \<open>
  What initialization does to the generic framework, in program order: the creation and
  the removal of the domain of the bank at an index, the binding of a physical line to the
  direct handler for a pin of a bank, and the binding of the shared line to the muxed handler
  for a group of banks.
\<close>

datatype init_event =
    Domain_add nat
  | Domain_remove nat
  | Bind_direct nat nat nat
  | Bind_muxed nat "nat list"

type_synonym init_result = "(errno + unit) \<times> samsung_pin_bank list \<times> init_event list \<times> sys"

text \<open>
  The \<^verbatim>\<open>err_domains\<close> loop of \<^verbatim>\<open>exynos_eint_gpio_init\<close>, entered with the index
  \<open>i\<close> of the bank at which initialization failed: it steps \<open>i\<close> down to 0 and removes
  the domain of every GPIO-demuxed bank it passes.
\<close>

fun err_domains :: "nat \<Rightarrow> samsung_pin_bank list \<Rightarrow> init_event list \<Rightarrow> init_event list" where
  "err_domains 0 banks ev = ev"
| "err_domains (Suc i) banks ev =
     (if eint_type (banks ! i) \<noteq> EINT_TYPE_GPIO then err_domains i banks ev
      else err_domains i banks (ev @ [Domain_remove i]))"

text \<open>
  The bank loop of \<^verbatim>\<open>exynos_eint_gpio_init\<close>, from index \<open>i\<close>. \<^verbatim>\<open>devm_kzalloc\<close>
  returns zeroed memory.
\<close>

function gpio_init_loop ::
  "init_env \<Rightarrow> exynos_hdr \<Rightarrow> nat \<Rightarrow> samsung_pin_bank list \<Rightarrow> init_event list \<Rightarrow> sys
     \<Rightarrow> init_result" where
  "gpio_init_loop env h i banks ev s =
     (if i < length banks then
        (let bank = banks ! i in
         if eint_type bank \<noteq> EINT_TYPE_GPIO then gpio_init_loop env h (Suc i) banks ev s
         else
           (case domain_add env i of
              None \<Rightarrow>
                (Inl ENXIO, banks[i := bank\<lparr> irq_domain := None \<rparr>], err_domains i banks ev, s)
            | Some d \<Rightarrow>
                (let bank = bank\<lparr> irq_domain := Some d \<rparr>;
                     ev = ev @ [Domain_add i]
                 in if \<not> kzalloc_ok env i then
                      (Inl ENOMEM, banks[i := bank],
                       err_domains i banks (ev @ [Domain_remove i]), s)
                    else
                      (let bank = bank\<lparr> soc_priv := Some \<lparr> save_eint_con = 0,
                                   save_eint_fltcon0 = 0, save_eint_fltcon1 = 0 \<rparr> \<rparr>;
                           s = exynos_eint_flt_config h (EXYNOS_EINT_FLTCON_EN h)
                                 (EXYNOS_EINT_FLTCON_SEL h) 0 bank s
                       in gpio_init_loop env h (Suc i) (banks[i := bank]) ev s))))
      else (Inr (), banks, ev, s))"
  by pat_completeness auto
termination
  by (relation "measure (\<lambda>(env, h, i, banks, ev, s). length banks - i)") auto

declare gpio_init_loop.simps [simp del]

definition exynos_eint_gpio_init ::
  "init_env \<Rightarrow> exynos_hdr \<Rightarrow> samsung_pin_bank list \<Rightarrow> sys \<Rightarrow> init_result" where
  "exynos_eint_gpio_init env h banks s =
     (if \<not> irq_available env then (Inl EINVAL, banks, [], s)
      else if \<not> request_irq_ok env then (Inl ENXIO, banks, [], s)
      else gpio_init_loop env h 0 banks [] s)"

text \<open>
  The first bank loop of \<^verbatim>\<open>exynos_eint_wkup_init\<close>, from index \<open>i\<close>, with the count
  \<^verbatim>\<open>muxed_banks\<close> of the banks reclassified so far; on reaching the end of the table it
  continues with the muxed group. \<open>bind_pins\<close> is the inner loop over the pins of a bank
  with its own physical lines. The second bank loop stores every
  \<^verbatim>\<open>EINT_TYPE_WKUP_MUX\<close> bank of the table, in table order, into an array allocated for
  \<^verbatim>\<open>muxed_banks\<close> pointers, and \<^verbatim>\<open>nr_banks\<close> is set to \<^verbatim>\<open>muxed_banks\<close>: the group
  that the muxed handler visits is the first \<^verbatim>\<open>muxed_banks\<close> of these banks. They are all
  of them unless the table holds such a bank on entry, in which case the stores beyond the
  allocation are out-of-bounds writes in the source and outside the group here.
\<close>

definition bind_pins :: "init_env \<Rightarrow> nat \<Rightarrow> nat \<Rightarrow> init_event list \<Rightarrow> init_event list" where
  "bind_pins env i n ev =
     fold (\<lambda>idx ev. let irq = irq_of_pin env i idx
                     in if irq = 0 then ev else ev @ [Bind_direct irq i idx]) [0 ..< n] ev"

definition wkup_init_muxed ::
  "init_env \<Rightarrow> nat \<Rightarrow> samsung_pin_bank list \<Rightarrow> init_event list \<Rightarrow> sys \<Rightarrow> init_result" where
  "wkup_init_muxed env muxed_banks banks ev s =
     (if muxed_banks = 0 then (Inr (), banks, ev, s)
      else
        (let irq = muxed_irq env in
         if irq = 0 then (Inr (), banks, ev, s)
         else if \<not> muxed_alloc_ok env then (Inl ENOMEM, banks, ev, s)
         else (Inr (), banks,
               ev @ [Bind_muxed irq
                       (take muxed_banks
                          (filter (\<lambda>i. eint_type (banks ! i) = EINT_TYPE_WKUP_MUX)
                             [0 ..< length banks]))], s)))"

function wkup_init_loop ::
  "init_env \<Rightarrow> exynos_hdr \<Rightarrow> nat \<Rightarrow> nat \<Rightarrow> samsung_pin_bank list \<Rightarrow> init_event list \<Rightarrow> sys
     \<Rightarrow> init_result" where
  "wkup_init_loop env h i muxed_banks banks ev s =
     (if i < length banks then
        (let bank = banks ! i in
         if eint_type bank \<noteq> EINT_TYPE_WKUP
         then wkup_init_loop env h (Suc i) muxed_banks banks ev s
         else
           (let s = exynos_eint_flt_config h (EXYNOS_EINT_FLTCON_EN h)
                      (EXYNOS_EINT_FLTCON_SEL h) 0 bank s
            in case domain_add env i of
                 None \<Rightarrow> (Inl ENXIO, banks[i := bank\<lparr> irq_domain := None \<rparr>], ev, s)
               | Some d \<Rightarrow>
                   (let bank = bank\<lparr> irq_domain := Some d \<rparr>;
                        ev = ev @ [Domain_add i]
                    in if \<not> has_interrupts env i then
                         wkup_init_loop env h (Suc i) (Suc muxed_banks)
                           (banks[i := bank\<lparr> eint_type := EINT_TYPE_WKUP_MUX \<rparr>]) ev s
                       else if \<not> kzalloc_ok env i then (Inl ENOMEM, banks[i := bank], ev, s)
                       else wkup_init_loop env h (Suc i) muxed_banks (banks[i := bank])
                              (bind_pins env i (nr_pins bank) ev) s)))
      else wkup_init_muxed env muxed_banks banks ev s)"
  by pat_completeness auto
termination
  by (relation "measure (\<lambda>(env, h, i, muxed_banks, banks, ev, s). length banks - i)") auto

declare wkup_init_loop.simps [simp del]

definition exynos_eint_wkup_init ::
  "init_env \<Rightarrow> exynos_hdr \<Rightarrow> samsung_pin_bank list \<Rightarrow> sys \<Rightarrow> init_result" where
  "exynos_eint_wkup_init env h banks s =
     (if \<not> wkup_node env then (Inl ENODEV, banks, [], s)
      else wkup_init_loop env h 0 0 banks [] s)"

section \<open>Stack dump serialization\<close>

text \<open>
  \<^verbatim>\<open>lib/dump_stack.c\<close> under \<^verbatim>\<open>CONFIG_SMP\<close>, seen from the calling CPU alone. The state
  is the value of the atomic \<^verbatim>\<open>dump_lock\<close> (initially \<open>-1\<close>), whether local interrupts
  are enabled, and the dumps printed so far, each with the CPU that printed it and its
  \<^verbatim>\<open>auto_summary\<close> flag.
\<close>

record dump_state =
  dump_lock :: int
  irqs_enabled :: bool
  printed :: "(int \<times> bool) list"

definition dump_lock_init :: int where
  "dump_lock_init = - 1"

text \<open>\<^verbatim>\<open>atomic_cmpxchg\<close> returns the old value and stores the new one when the old value
  is the expected one.\<close>

definition atomic_cmpxchg :: "int \<Rightarrow> int \<Rightarrow> dump_state \<Rightarrow> int \<times> dump_state" where
  "atomic_cmpxchg old new s =
     (dump_lock s, if dump_lock s = old then s\<lparr> dump_lock := new \<rparr> else s)"

text \<open>
  \<^verbatim>\<open>__dump_stack\<close> (lines 12 to 28; an identifier cannot begin with an underscore
  here). Its body calls \<^verbatim>\<open>dump_stack_print_info\<close> and then \<^verbatim>\<open>show_stack\<close> or, when
  its flag is set, \<^verbatim>\<open>show_stack_auto_summary\<close>, and does nothing else; it does not refer
  to \<^verbatim>\<open>dump_lock\<close>. The three printing functions are outside the modelled files, so the
  call is recorded with the CPU it runs on and the flag that selects between the two.
\<close>

definition print_dump_stack :: "int \<Rightarrow> bool \<Rightarrow> dump_state \<Rightarrow> dump_state" where
  "print_dump_stack cpu for_auto_summary s = s\<lparr> printed := printed s @ [(cpu, for_auto_summary)] \<rparr>"

text \<open>
  The wait \<^verbatim>\<open>do { cpu_relax(); } while (atomic_read(&dump_lock) != -1)\<close>. No other CPU
  acts in this model, so the wait does not end while the lock is held: it is a partial
  function, and not returning is \<open>None\<close>.
\<close>

partial_function (option) dump_lock_wait :: "dump_state \<Rightarrow> dump_state option" where
  "dump_lock_wait s = (if dump_lock s \<noteq> - 1 then dump_lock_wait s else Some s)"

text \<open>
  \<^verbatim>\<open>_dump_stack\<close> (named \<open>underscore_dump_stack\<close> for the same reason) on the CPU
  \<open>cpu\<close> that \<^verbatim>\<open>smp_processor_id\<close> returns. \<open>dump_stack_tail\<close> is the part after
  the lock has been taken or found held by this CPU; \<^verbatim>\<open>goto retry\<close> is the recursive
  call.
\<close>

definition dump_stack_tail :: "bool \<Rightarrow> int \<Rightarrow> bool \<Rightarrow> bool \<Rightarrow> dump_state \<Rightarrow> dump_state" where
  "dump_stack_tail auto_summary cpu was_locked flags s =
     (let s = print_dump_stack cpu auto_summary s;
          s = (if \<not> was_locked then s\<lparr> dump_lock := - 1 \<rparr> else s)
      in s\<lparr> irqs_enabled := flags \<rparr>)"

partial_function (option) underscore_dump_stack ::
  "bool \<Rightarrow> int \<Rightarrow> dump_state \<Rightarrow> dump_state option" where
  "underscore_dump_stack auto_summary cpu s =
     (let flags = irqs_enabled s;
          s = s\<lparr> irqs_enabled := False \<rparr>;
          (old, s) = atomic_cmpxchg (- 1) cpu s
      in if old = - 1 then Some (dump_stack_tail auto_summary cpu False flags s)
         else if old = cpu then Some (dump_stack_tail auto_summary cpu True flags s)
         else
           Option.bind (dump_lock_wait (s\<lparr> irqs_enabled := flags \<rparr>))
             (\<lambda>s. underscore_dump_stack auto_summary cpu s))"

definition dump_stack :: "int \<Rightarrow> dump_state \<Rightarrow> dump_state option" where
  "dump_stack cpu s = underscore_dump_stack False cpu s"

section \<open>Vocabulary of the specification\<close>

text \<open>
  The five supported trigger kinds, the generic trigger type that requests each of them and
  the hardware trigger code mapped for it.
\<close>

datatype trigger_kind = Rising_edge | Falling_edge | Both_edges | Level_high | Level_low

fun irq_type_of :: "exynos_hdr \<Rightarrow> trigger_kind \<Rightarrow> u32" where
  "irq_type_of h Rising_edge = IRQ_TYPE_EDGE_RISING h"
| "irq_type_of h Falling_edge = IRQ_TYPE_EDGE_FALLING h"
| "irq_type_of h Both_edges = IRQ_TYPE_EDGE_BOTH h"
| "irq_type_of h Level_high = IRQ_TYPE_LEVEL_HIGH h"
| "irq_type_of h Level_low = IRQ_TYPE_LEVEL_LOW h"

fun hw_code_of :: "exynos_hdr \<Rightarrow> trigger_kind \<Rightarrow> u32" where
  "hw_code_of h Rising_edge = EXYNOS_EINT_EDGE_RISING h"
| "hw_code_of h Falling_edge = EXYNOS_EINT_EDGE_FALLING h"
| "hw_code_of h Both_edges = EXYNOS_EINT_EDGE_BOTH h"
| "hw_code_of h Level_high = EXYNOS_EINT_LEVEL_HIGH h"
| "hw_code_of h Level_low = EXYNOS_EINT_LEVEL_LOW h"

text \<open>
  What the statements about \<^verbatim>\<open>exynos_irq_set_type\<close> need of the header: the five
  case labels are pairwise distinct (as C requires of a \<^verbatim>\<open>switch\<close>), the both-edges
  type is the union of the rising and the falling bit and shares no bit with a level type,
  the control mask covers exactly one field of \<^verbatim>\<open>EXYNOS_EINT_CON_LEN\<close> bits, and every
  trigger code fits in a field.
\<close>

definition all_kinds :: "trigger_kind list" where
  "all_kinds = [Rising_edge, Falling_edge, Both_edges, Level_high, Level_low]"

definition trigger_hdr_ok :: "exynos_hdr \<Rightarrow> bool" where
  "trigger_hdr_ok h \<longleftrightarrow>
     distinct (map (irq_type_of h) all_kinds) \<and>
     IRQ_TYPE_EDGE_BOTH h = IRQ_TYPE_EDGE_RISING h OR IRQ_TYPE_EDGE_FALLING h \<and>
     IRQ_TYPE_EDGE_RISING h \<noteq> 0 \<and> IRQ_TYPE_EDGE_FALLING h \<noteq> 0 \<and>
     IRQ_TYPE_LEVEL_HIGH h AND IRQ_TYPE_EDGE_BOTH h = 0 \<and>
     IRQ_TYPE_LEVEL_LOW h AND IRQ_TYPE_EDGE_BOTH h = 0 \<and>
     EXYNOS_EINT_CON_MASK h = mask (EXYNOS_EINT_CON_LEN h) \<and>
     list_all (\<lambda>k. take_bit (EXYNOS_EINT_CON_LEN h) (hw_code_of h k) = hw_code_of h k) all_kinds"

text \<open>A concrete bank, line and machine state at which statements are evaluated.\<close>

definition ex_bank :: samsung_pin_bank where
  "ex_bank = \<lparr> nr_pins = 8, eint_type = EINT_TYPE_GPIO, eint_offset = 4,
               irq_domain = Some [160, 161, 162, 163, 164, 165, 166, 167],
               soc_priv = Some \<lparr> save_eint_con = 0, save_eint_fltcon0 = 0, save_eint_fltcon1 = 0 \<rparr> \<rparr>"

definition ex_irqd :: irq_data where
  "ex_irqd = \<lparr> hwirq = 3, irq = 163, irq_chip = exynos_gpio_irq_chip kernel_hdr,
               chip_data = ex_bank, trigger_type = 4 \<rparr>"

definition ex_sys :: sys where
  "ex_sys = \<lparr> regs = (\<lambda>a. 0x12345678), io_log = [], flow = Map.empty, dispatched = [],
              exynos_eint_wake_mask = 0xffffffff \<rparr>"

text \<open>The addresses of the control, mask and pending registers of a line's bank, as
  the chip operations compute them.\<close>

definition reg_con_of :: "irq_data \<Rightarrow> nat" where
  "reg_con_of irqd = unat (eint_con (irq_chip irqd) + eint_offset (chip_data irqd))"

definition reg_mask_of :: "irq_data \<Rightarrow> nat" where
  "reg_mask_of irqd = unat (eint_mask (irq_chip irqd) + eint_offset (chip_data irqd))"

definition reg_pend_of :: "irq_data \<Rightarrow> nat" where
  "reg_pend_of irqd = unat (eint_pend (irq_chip irqd) + eint_offset (chip_data irqd))"

text \<open>A configured trigger type is a level type when it has a bit of
  \<^verbatim>\<open>IRQ_TYPE_LEVEL_MASK\<close>.\<close>

definition is_level_type :: "exynos_hdr \<Rightarrow> u32 \<Rightarrow> bool" where
  "is_level_type h t \<longleftrightarrow> t AND IRQ_TYPE_LEVEL_MASK h \<noteq> 0"

text \<open>The bit position of a wakeup line in the wake mask,
  \<^verbatim>\<open>bank.eint_offset * 2 + pin\<close>.\<close>

definition wake_pos :: "irq_data \<Rightarrow> nat" where
  "wake_pos irqd = 2 * unat (eint_offset (chip_data irqd)) + hwirq irqd"

text \<open>A machine state whose service register reports group 1, pin 3.\<close>

definition ex_svc_sys :: sys where
  "ex_svc_sys = ex_sys\<lparr> regs := (\<lambda>a. if a = 0xB08 then 11 else 0) \<rparr>"

text \<open>
  The indices of the set bits of a 32-bit value in strictly descending order, the working
  value \<^verbatim>\<open>pending & ~mask\<close> of a bank, and the virtual lines of its set bits in that
  order.
\<close>

definition set_bits_desc :: "u32 \<Rightarrow> nat list" where
  "set_bits_desc w = filter (bit w) (rev [0 ..< 32])"

definition pending_unmasked :: "exynos_hdr \<Rightarrow> samsung_pin_bank \<Rightarrow> sys \<Rightarrow> u32" where
  "pending_unmasked h b s =
     regs s (unat (EXYNOS_GPIO_EPEND_OFFSET h) + unat (eint_offset b))
       AND NOT (regs s (unat (EXYNOS_GPIO_EMASK_OFFSET h) + unat (eint_offset b)))"

definition bank_lines :: "exynos_hdr \<Rightarrow> samsung_pin_bank \<Rightarrow> sys \<Rightarrow> nat list" where
  "bank_lines h b s =
     map (irq_find_mapping (irq_domain b)) (set_bits_desc (pending_unmasked h b s))"

text \<open>A muxed wakeup group of two banks with lines 9 and 2 of the first and lines 5 and 0
  of the second pending, line 0 of the second being masked.\<close>

definition ex_eintd :: "samsung_pin_bank list" where
  "ex_eintd =
     [\<lparr> nr_pins = 8, eint_type = EINT_TYPE_WKUP_MUX, eint_offset = 0,
        irq_domain = Some [100, 101, 102, 103, 104, 105, 106, 107, 108, 109, 110, 111],
        soc_priv = None \<rparr>,
      \<lparr> nr_pins = 8, eint_type = EINT_TYPE_WKUP_MUX, eint_offset = 4,
        irq_domain = Some [200, 201, 202, 203, 204, 205, 206, 207], soc_priv = None \<rparr>]"

definition ex_mux_sys :: sys where
  "ex_mux_sys = ex_sys\<lparr> regs := (\<lambda>a. if a = 0xA00 then 0x204 else if a = 0xA04 then 0x21
                                   else if a = 0x904 then 0x01 else 0) \<rparr>"

text \<open>
  Field \<open>i\<close> of a filter register (\<^verbatim>\<open>EXYNOS_EINT_FLTCON_LEN\<close> bits at offset
  \<^verbatim>\<open>i * EXYNOS_EINT_FLTCON_LEN\<close>) and the number of pin-pairs of a bank.
\<close>

definition flt_field :: "exynos_hdr \<Rightarrow> nat \<Rightarrow> u32 \<Rightarrow> u32" where
  "flt_field h i w =
     take_bit (EXYNOS_EINT_FLTCON_LEN h) (drop_bit (i * EXYNOS_EINT_FLTCON_LEN h) w)"

definition flt_pairs :: "samsung_pin_bank \<Rightarrow> nat" where
  "flt_pairs bank = nr_pins bank div 2"

text \<open>
  What the statements about the filter need of the header: the filter mask covers exactly
  one field, and the control word fits in a field.
\<close>

definition flt_word_ok :: "exynos_hdr \<Rightarrow> u32 \<Rightarrow> bool" where
  "flt_word_ok h cw \<longleftrightarrow>
     EXYNOS_EINT_FLTCON_MASK h = mask (EXYNOS_EINT_FLTCON_LEN h) \<and>
     take_bit (EXYNOS_EINT_FLTCON_LEN h) cw = cw"

text \<open>The two classes of banks the suspend and resume loops distinguish.\<close>

definition is_gpio :: "samsung_pin_bank \<Rightarrow> bool" where
  "is_gpio b \<longleftrightarrow> eint_type b = EINT_TYPE_GPIO"

definition is_wkup :: "samsung_pin_bank \<Rightarrow> bool" where
  "is_wkup b \<longleftrightarrow> eint_type b = EINT_TYPE_WKUP \<or> eint_type b = EINT_TYPE_WKUP_MUX"


definition flt0_addr :: "exynos_hdr \<Rightarrow> samsung_pin_bank \<Rightarrow> nat" where
  "flt0_addr h b = unat (EXYNOS_GPIO_EFLTCON_OFFSET h) + unat (2 * eint_offset b)"




text \<open>
  The control word of the analog setting (filter enabled, select bit clear, width 0) and of
  the digital setting (filter enabled, select bit set, width 0), and the statement that
  every pin-pair field of both filter registers of a bank holds a given control word.
\<close>

definition analog_word :: "exynos_hdr \<Rightarrow> u32" where
  "analog_word h = EXYNOS_EINT_FLTCON_EN h OR EXYNOS_EINT_FLTCON_WIDTH h 0"

definition digital_word :: "exynos_hdr \<Rightarrow> u32" where
  "digital_word h =
     EXYNOS_EINT_FLTCON_EN h OR EXYNOS_EINT_FLTCON_SEL h OR EXYNOS_EINT_FLTCON_WIDTH h 0"

definition flt_holds :: "exynos_hdr \<Rightarrow> u32 \<Rightarrow> samsung_pin_bank \<Rightarrow> sys \<Rightarrow> bool" where
  "flt_holds h cw w s \<longleftrightarrow>
     (\<forall>i<flt_pairs w. flt_field h i (regs s (unat (flt_reg_of h w))) = cw \<and>
                      flt_field h i (regs s (unat (flt_reg_of h w) + 4)) = cw)"

text \<open>
  What the statements about suspend and resume need of the header: the filter mask covers
  exactly one field, the enable bit, the select bit and the zero width fit in a field, and
  the select bit is distinct from the enable bit and from the zero width.
\<close>

definition flt_hdr_ok :: "exynos_hdr \<Rightarrow> bool" where
  "flt_hdr_ok h \<longleftrightarrow>
     EXYNOS_EINT_FLTCON_MASK h = mask (EXYNOS_EINT_FLTCON_LEN h) \<and>
     take_bit (EXYNOS_EINT_FLTCON_LEN h) (EXYNOS_EINT_FLTCON_EN h) = EXYNOS_EINT_FLTCON_EN h \<and>
     take_bit (EXYNOS_EINT_FLTCON_LEN h) (EXYNOS_EINT_FLTCON_SEL h) = EXYNOS_EINT_FLTCON_SEL h \<and>
     take_bit (EXYNOS_EINT_FLTCON_LEN h) (EXYNOS_EINT_FLTCON_WIDTH h 0)
       = EXYNOS_EINT_FLTCON_WIDTH h 0 \<and>
     EXYNOS_EINT_FLTCON_EN h \<noteq> 0 \<and> EXYNOS_EINT_FLTCON_SEL h \<noteq> 0 \<and>
     EXYNOS_EINT_FLTCON_EN h AND EXYNOS_EINT_FLTCON_SEL h = 0 \<and>
     EXYNOS_EINT_FLTCON_WIDTH h 0 AND EXYNOS_EINT_FLTCON_SEL h = 0"






text \<open>
  The value of a register after suspend, after suspend immediately followed by resume, and
  after suspend followed by a resume that starts from another machine state \<open>t\<close> (the
  registers having lost their contents in between) with the bank table that suspend
  returned.
\<close>

definition suspend_reg ::
  "exynos_hdr \<Rightarrow> samsung_pin_bank list \<Rightarrow> sys \<Rightarrow> nat \<Rightarrow> u32 option" where
  "suspend_reg h banks s a =
     (case exynos_pinctrl_suspend h banks s of
        None \<Rightarrow> None
      | Some (banks1, s1) \<Rightarrow> Some (regs s1 a))"

definition suspend_resume_reg ::
  "exynos_hdr \<Rightarrow> samsung_pin_bank list \<Rightarrow> sys \<Rightarrow> nat \<Rightarrow> u32 option" where
  "suspend_resume_reg h banks s a =
     (case exynos_pinctrl_suspend h banks s of
        None \<Rightarrow> None
      | Some (banks1, s1) \<Rightarrow>
          (case exynos_pinctrl_resume h banks1 s1 of
             None \<Rightarrow> None
           | Some s2 \<Rightarrow> Some (regs s2 a)))"

definition suspend_resume_from_reg ::
  "exynos_hdr \<Rightarrow> samsung_pin_bank list \<Rightarrow> sys \<Rightarrow> sys \<Rightarrow> nat \<Rightarrow> u32 option" where
  "suspend_resume_from_reg h banks s t a =
     (case exynos_pinctrl_suspend h banks s of
        None \<Rightarrow> None
      | Some (banks1, s1) \<Rightarrow>
          (case exynos_pinctrl_resume h banks1 t of
             None \<Rightarrow> None
           | Some s2 \<Rightarrow> Some (regs s2 a)))"

text \<open>A bank table without overlapping registers; a GPIO-demuxed and a wakeup bank with
  the same \<^verbatim>\<open>eint_offset\<close> (as \<^verbatim>\<open>gpk0\<close> and \<^verbatim>\<open>gpx2\<close> of
  \<^verbatim>\<open>exynos3250_pin_banks1\<close>); and two wakeup banks of which the second's paired filter
  register is the first's primary one.\<close>

definition ex_banks :: "samsung_pin_bank list" where
  "ex_banks =
     [ex_bank,
      \<lparr> nr_pins = 8, eint_type = EINT_TYPE_WKUP, eint_offset = 0,
        irq_domain = None, soc_priv = None \<rparr>,
      \<lparr> nr_pins = 6, eint_type = EINT_TYPE_WKUP_MUX, eint_offset = 8,
        irq_domain = None, soc_priv = None \<rparr>]"

definition gpk0 :: samsung_pin_bank where
  "gpk0 = \<lparr> nr_pins = 8, eint_type = EINT_TYPE_GPIO, eint_offset = 8, irq_domain = None,
            soc_priv = Some \<lparr> save_eint_con = 0, save_eint_fltcon0 = 0, save_eint_fltcon1 = 0 \<rparr> \<rparr>"

definition gpx2 :: samsung_pin_bank where
  "gpx2 = \<lparr> nr_pins = 8, eint_type = EINT_TYPE_WKUP, eint_offset = 8, irq_domain = None,
            soc_priv = None \<rparr>"

definition wide_bank :: samsung_pin_bank where
  "wide_bank = \<lparr> nr_pins = 8, eint_type = EINT_TYPE_WKUP, eint_offset = 4, irq_domain = None,
                 soc_priv = None \<rparr>"

definition narrow_bank :: samsung_pin_bank where
  "narrow_bank = \<lparr> nr_pins = 2, eint_type = EINT_TYPE_WKUP, eint_offset = 2, irq_domain = None,
                   soc_priv = None \<rparr>"

text \<open>The bank indices whose domains a run created, and those whose domains it removed,
  each in program order; the error code and the events of a result; and the indices below
  \<open>i\<close> of the GPIO-demuxed banks of a table.\<close>

fun added_domains :: "init_event list \<Rightarrow> nat list" where
  "added_domains [] = []"
| "added_domains (Domain_add i # ev) = i # added_domains ev"
| "added_domains (e # ev) = added_domains ev"

fun removed_domains :: "init_event list \<Rightarrow> nat list" where
  "removed_domains [] = []"
| "removed_domains (Domain_remove i # ev) = i # removed_domains ev"
| "removed_domains (e # ev) = removed_domains ev"

definition init_errno :: "init_result \<Rightarrow> errno + unit" where
  "init_errno r = fst r"

definition init_events :: "init_result \<Rightarrow> init_event list" where
  "init_events r = fst (snd (snd r))"

definition gpio_banks_below :: "nat \<Rightarrow> samsung_pin_bank list \<Rightarrow> nat list" where
  "gpio_banks_below i banks = filter (\<lambda>k. eint_type (banks ! k) = EINT_TYPE_GPIO) [0 ..< i]"

text \<open>An environment in which domain creation succeeds for the bank at index 0 and fails
  for every other bank, and two tables of two banks each.\<close>

definition ex_wkup_env :: init_env where
  "ex_wkup_env = \<lparr> irq_available = True, request_irq_ok = True,
     domain_add = (\<lambda>i. if i = 0 then Some [160, 161, 162, 163, 164, 165, 166, 167] else None),
     kzalloc_ok = (\<lambda>i. True), wkup_node = True, has_interrupts = (\<lambda>i. False),
     irq_of_pin = (\<lambda>i idx. 0), muxed_irq = 48, muxed_alloc_ok = True \<rparr>"

definition ex_wkup_banks :: "samsung_pin_bank list" where
  "ex_wkup_banks =
     [\<lparr> nr_pins = 8, eint_type = EINT_TYPE_WKUP, eint_offset = 0,
        irq_domain = None, soc_priv = None \<rparr>,
      \<lparr> nr_pins = 8, eint_type = EINT_TYPE_WKUP, eint_offset = 4,
        irq_domain = None, soc_priv = None \<rparr>]"

definition ex_gpio_banks :: "samsung_pin_bank list" where
  "ex_gpio_banks =
     [\<lparr> nr_pins = 8, eint_type = EINT_TYPE_GPIO, eint_offset = 0,
        irq_domain = None, soc_priv = None \<rparr>,
      \<lparr> nr_pins = 8, eint_type = EINT_TYPE_GPIO, eint_offset = 4,
        irq_domain = None, soc_priv = None \<rparr>]"


text \<open>A state in which CPU 2 holds the dump lock, as inside a dump of that CPU.\<close>

definition ex_dump_state :: dump_state where
  "ex_dump_state = \<lparr> dump_lock = 2, irqs_enabled = True, printed = [(2, False)] \<rparr>"

section \<open>Bit fields\<close>

text \<open>Rewriting one field of a register: the field takes the new value and every bit
  outside it keeps its old one.\<close>

lemma field_bit:
  fixes con code :: u32
  assumes "take_bit len code = code" "sh + len \<le> 32" "n < 32"
  shows "bit ((con AND NOT (push_bit sh (mask len))) OR push_bit sh code) n
         = (if sh \<le> n \<and> n < sh + len then bit code (n - sh) else bit con n)"
proof -
  have c: "\<not> bit code k" if "len \<le> k" for k
    using assms(1) that by (metis bit_take_bit_iff not_le)
  have "n - sh < len \<longleftrightarrow> n < sh + len" if "sh \<le> n"
    using that by arith
  moreover have "\<not> bit code (n - sh)" if "sh \<le> n" "\<not> n < sh + len"
    using that by (intro c) arith
  ultimately show ?thesis using assms(3)
    by (auto simp add: bit_simps)
qed

lemma field_read:
  fixes con code :: u32
  assumes "take_bit len code = code" "sh + len \<le> 32"
  shows "take_bit len (drop_bit sh ((con AND NOT (push_bit sh (mask len))) OR push_bit sh code)) = code"
proof (rule bit_word_eqI)
  fix n assume n: "n < LENGTH(32)"
  have c: "\<not> bit code k" if "len \<le> k" for k
    using assms(1) that by (metis bit_take_bit_iff not_le)
  show "bit (take_bit len (drop_bit sh ((con AND NOT (push_bit sh (mask len))) OR push_bit sh code))) n = bit code n"
  proof (cases "n < len")
    case True
    then have "sh + n < 32" using assms(2) by arith
    define X where "X = (con AND NOT (push_bit sh (mask len))) OR push_bit sh code"
    have "bit (take_bit len (drop_bit sh X)) n = bit X (sh + n)"
      using True by (simp only: bit_take_bit_iff bit_drop_bit_eq) simp
    also have "\<dots> = bit code n"
      unfolding X_def using True \<open>sh + n < 32\<close> assms by (simp only: field_bit) simp
    finally show ?thesis unfolding X_def .
  next
    case False
    then have "\<not> bit code n" by (intro c) simp
    then show ?thesis using False by (simp only: bit_take_bit_iff) simp
  qed
qed

section \<open>Setting the trigger type\<close>

lemma trig_type_of_kind:
  assumes "trigger_hdr_ok h"
  shows "trig_type_of h (irq_type_of h kind) = Some (hw_code_of h kind)"
  using assms by (cases kind) (auto simp add: trigger_hdr_ok_def all_kinds_def trig_type_of_def)

lemma edge_test_kind:
  assumes "trigger_hdr_ok h"
  shows "(irq_type_of h kind AND IRQ_TYPE_EDGE_BOTH h \<noteq> 0) \<longleftrightarrow> kind \<notin> {Level_high, Level_low}"
proof -
  have r: "IRQ_TYPE_EDGE_RISING h AND (IRQ_TYPE_EDGE_RISING h OR IRQ_TYPE_EDGE_FALLING h) = IRQ_TYPE_EDGE_RISING h"
    by (simp add: bit_eq_iff bit_simps)
  have f: "IRQ_TYPE_EDGE_FALLING h AND (IRQ_TYPE_EDGE_RISING h OR IRQ_TYPE_EDGE_FALLING h) = IRQ_TYPE_EDGE_FALLING h"
    by (simp add: bit_eq_iff bit_simps)
  show ?thesis using assms r f
    by (cases kind) (auto simp add: trigger_hdr_ok_def all_kinds_def or_eq_0_iff)
qed

text \<open>
  Claim C7. For a trigger type that is none of the five supported ones,
  \<^verbatim>\<open>exynos_irq_set_type\<close> returns \<^verbatim>\<open>-EINVAL\<close> and the whole machine state, the
  control register and the flow handler included, is as before the call.
\<close>

theorem set_type_rejects_unsupported:
  assumes "type \<notin> {IRQ_TYPE_EDGE_RISING h, IRQ_TYPE_EDGE_FALLING h, IRQ_TYPE_EDGE_BOTH h,
                    IRQ_TYPE_LEVEL_HIGH h, IRQ_TYPE_LEVEL_LOW h}"
  shows "exynos_irq_set_type h irqd type s = (Inl EINVAL, s)"
  using assms by (simp add: exynos_irq_set_type_def trig_type_of_def)

lemma kernel_hdr_ok: "trigger_hdr_ok kernel_hdr"
  by (simp add: trigger_hdr_ok_def all_kinds_def kernel_hdr_def mask_eq_exp_minus_1)

theorem set_type_rejects_unsupported_witness:
  "(5 :: u32) \<notin> {IRQ_TYPE_EDGE_RISING kernel_hdr, IRQ_TYPE_EDGE_FALLING kernel_hdr,
        IRQ_TYPE_EDGE_BOTH kernel_hdr, IRQ_TYPE_LEVEL_HIGH kernel_hdr, IRQ_TYPE_LEVEL_LOW kernel_hdr}
   \<and> exynos_irq_set_type kernel_hdr ex_irqd 5 ex_sys = (Inl EINVAL, ex_sys)"
proof -
  have h: "(5 :: u32) \<notin> {IRQ_TYPE_EDGE_RISING kernel_hdr, IRQ_TYPE_EDGE_FALLING kernel_hdr,
        IRQ_TYPE_EDGE_BOTH kernel_hdr, IRQ_TYPE_LEVEL_HIGH kernel_hdr, IRQ_TYPE_LEVEL_LOW kernel_hdr}"
    by (simp add: kernel_hdr_def)
  from set_type_rejects_unsupported [OF h] h show ?thesis by blast
qed

text \<open>
  Claim C3, as the code has it. For each of the five supported kinds and every line whose
  field lies within the 32-bit control register, \<^verbatim>\<open>exynos_irq_set_type\<close> succeeds; the
  field of \<^verbatim>\<open>EXYNOS_EINT_CON_LEN\<close> bits at offset \<^verbatim>\<open>EXYNOS_EINT_CON_LEN * hwirq\<close> of
  the bank's control register then holds the hardware code mapped for the kind, every bit
  outside that field and every other register is unchanged, and the flow handler of the line
  is the edge handler for the rising, falling and both-edges kinds and the level handler for
  the two level kinds.
\<close>

theorem set_type_programs_field:
  assumes ok: "trigger_hdr_ok h"
    and fits: "EXYNOS_EINT_CON_LEN h * hwirq irqd + EXYNOS_EINT_CON_LEN h \<le> 32"
  shows "fst (exynos_irq_set_type h irqd (irq_type_of h kind) s) = Inr () \<and>
    take_bit (EXYNOS_EINT_CON_LEN h) (drop_bit (EXYNOS_EINT_CON_LEN h * hwirq irqd)
      (regs (snd (exynos_irq_set_type h irqd (irq_type_of h kind) s)) (reg_con_of irqd)))
      = hw_code_of h kind \<and>
    (\<forall>n<32. \<not> (EXYNOS_EINT_CON_LEN h * hwirq irqd \<le> n \<and>
               n < EXYNOS_EINT_CON_LEN h * hwirq irqd + EXYNOS_EINT_CON_LEN h) \<longrightarrow>
       bit (regs (snd (exynos_irq_set_type h irqd (irq_type_of h kind) s)) (reg_con_of irqd)) n
         = bit (regs s (reg_con_of irqd)) n) \<and>
    (\<forall>a. a \<noteq> reg_con_of irqd \<longrightarrow>
       regs (snd (exynos_irq_set_type h irqd (irq_type_of h kind) s)) a = regs s a) \<and>
    flow (snd (exynos_irq_set_type h irqd (irq_type_of h kind) s)) (irq irqd)
      = Some (if kind \<in> {Level_high, Level_low} then handle_level_irq else handle_edge_irq)"
proof -
  let ?len = "EXYNOS_EINT_CON_LEN h" and ?sh = "EXYNOS_EINT_CON_LEN h * hwirq irqd"
  let ?hdl = "if kind \<in> {Level_high, Level_low} then handle_level_irq else handle_edge_irq"
  let ?con = "(regs s (reg_con_of irqd) AND NOT (push_bit ?sh (mask ?len)))
                OR push_bit ?sh (hw_code_of h kind)"
  have code: "take_bit ?len (hw_code_of h kind) = hw_code_of h kind"
    using ok by (cases kind) (simp_all add: trigger_hdr_ok_def all_kinds_def)
  have m: "EXYNOS_EINT_CON_MASK h = mask ?len"
    using ok by (simp add: trigger_hdr_ok_def)
  have run: "exynos_irq_set_type h irqd (irq_type_of h kind) s =
      (Inr (), writel ?con (reg_con_of irqd) (irq_set_handler_locked (irq irqd) ?hdl s))"
    using edge_test_kind [OF ok, of kind]
    by (simp add: exynos_irq_set_type_def trig_type_of_kind [OF ok] m reg_con_of_def
        readl_def irq_set_handler_locked_def Let_def)
  show ?thesis
    unfolding run
    using field_read [OF code fits] field_bit [OF code fits]
    by (simp add: writel_def irq_set_handler_locked_def)
qed

theorem set_type_programs_field_witness:
  "trigger_hdr_ok kernel_hdr \<and>
   EXYNOS_EINT_CON_LEN kernel_hdr * hwirq ex_irqd + EXYNOS_EINT_CON_LEN kernel_hdr \<le> 32 \<and>
   take_bit (EXYNOS_EINT_CON_LEN kernel_hdr)
     (drop_bit (EXYNOS_EINT_CON_LEN kernel_hdr * hwirq ex_irqd)
       (regs (snd (exynos_irq_set_type kernel_hdr ex_irqd (irq_type_of kernel_hdr Falling_edge)
          ex_sys)) (reg_con_of ex_irqd)))
     = hw_code_of kernel_hdr Falling_edge \<and>
   flow (snd (exynos_irq_set_type kernel_hdr ex_irqd (irq_type_of kernel_hdr Falling_edge)
      ex_sys)) (irq ex_irqd) = Some handle_edge_irq"
proof -
  have ok: "trigger_hdr_ok kernel_hdr" by (rule kernel_hdr_ok)
  have fits: "EXYNOS_EINT_CON_LEN kernel_hdr * hwirq ex_irqd + EXYNOS_EINT_CON_LEN kernel_hdr \<le> 32"
    by (simp add: kernel_hdr_def ex_irqd_def)
  from set_type_programs_field [OF ok fits, of Falling_edge ex_sys] ok fits
  show ?thesis by simp
qed

text \<open>The register value of that run: field 3 of \<open>0x12345678\<close> becomes 2.\<close>

lemma set_type_falling_value:
  "regs (snd (exynos_irq_set_type kernel_hdr ex_irqd 2 ex_sys)) 0x704 = 0x12342678"
  by (simp add: exynos_irq_set_type_def trig_type_of_def kernel_hdr_def ex_irqd_def ex_sys_def
      ex_bank_def exynos_gpio_irq_chip_def readl_def writel_def irq_set_handler_locked_def)

text \<open>
  Claim C3 as the specification words it gives the level handler to every supported kind
  but both-edges. For the rising-edge kind the code installs the edge handler.
\<close>

theorem set_type_rising_counterexample:
  "flow (snd (exynos_irq_set_type kernel_hdr ex_irqd (irq_type_of kernel_hdr Rising_edge) ex_sys))
     (irq ex_irqd)
   \<noteq> Some (if Rising_edge = Both_edges then handle_edge_irq else handle_level_irq)"
  by (simp add: exynos_irq_set_type_def trig_type_of_def kernel_hdr_def ex_irqd_def ex_sys_def
      readl_def writel_def irq_set_handler_locked_def Let_def)

section \<open>Unmasking\<close>

text \<open>
  Claim C2. \<^verbatim>\<open>exynos_irq_unmask\<close> on a line whose configured trigger is a level type
  issues exactly two register writes, in this order: bit \<^verbatim>\<open>hwirq\<close> to the pending
  register (the acknowledge), then the mask register with bit \<^verbatim>\<open>hwirq\<close> cleared. On any
  other line it issues the mask write alone. The chip's mask and pending offsets differ.
\<close>

theorem unmask_acks_level_first:
  assumes "eint_mask (irq_chip irqd) \<noteq> eint_pend (irq_chip irqd)"
  shows "io_log (exynos_irq_unmask h irqd s) =
     io_log s
     @ (if is_level_type h (irqd_get_trigger_type irqd)
        then [Writel (reg_pend_of irqd) (push_bit (hwirq irqd) 1)] else [])
     @ [Writel (reg_mask_of irqd) (regs s (reg_mask_of irqd) AND NOT (push_bit (hwirq irqd) 1))]"
proof -
  have "reg_mask_of irqd \<noteq> reg_pend_of irqd"
    using assms by (auto simp add: reg_mask_of_def reg_pend_of_def dest: unsigned_word_eqI)
  then show ?thesis
    by (simp add: exynos_irq_unmask_def exynos_irq_ack_def is_level_type_def readl_def writel_def
        reg_mask_of_def reg_pend_of_def Let_def)
qed

theorem unmask_acks_level_first_witness:
  "eint_mask (irq_chip ex_irqd) \<noteq> eint_pend (irq_chip ex_irqd) \<and>
   is_level_type kernel_hdr (irqd_get_trigger_type ex_irqd) \<and>
   io_log (exynos_irq_unmask kernel_hdr ex_irqd ex_sys) =
     [Writel 0xA04 8, Writel 0x904 0x12345670]"
proof -
  have ne: "eint_mask (irq_chip ex_irqd) \<noteq> eint_pend (irq_chip ex_irqd)"
    by (simp add: ex_irqd_def exynos_gpio_irq_chip_def kernel_hdr_def)
  have lv: "is_level_type kernel_hdr (irqd_get_trigger_type ex_irqd)"
    by (simp add: is_level_type_def irqd_get_trigger_type_def ex_irqd_def kernel_hdr_def)
  from unmask_acks_level_first [OF ne, of kernel_hdr ex_sys] ne lv
  show ?thesis
    by (simp add: reg_mask_of_def reg_pend_of_def ex_irqd_def ex_bank_def ex_sys_def
        exynos_gpio_irq_chip_def kernel_hdr_def)
qed

section \<open>Primary GPIO dispatch\<close>

text \<open>
  Claim C6. With the group and pin fields decoded from the service register: for group 0
  \<^verbatim>\<open>exynos_eint_gpio_irq\<close> returns \<^verbatim>\<open>IRQ_HANDLED\<close> and the state, its dispatch
  list included, is unchanged; for a group \<open>g > 0\<close> whose bank \<open>g - 1\<close> exists and has a
  domain, it returns \<^verbatim>\<open>IRQ_NONE\<close> with the state unchanged when the domain maps no
  virtual line to the pin, and otherwise returns \<^verbatim>\<open>IRQ_HANDLED\<close> after exactly one
  dispatch, of that pin's virtual line.
\<close>

theorem gpio_irq_dispatch:
  "(EXYNOS_SVC_GROUP h (regs s (unat (EXYNOS_SVC_OFFSET h))) = 0 \<longrightarrow>
      exynos_eint_gpio_irq h pin_banks s = Some (IRQ_HANDLED, s)) \<and>
   (EXYNOS_SVC_GROUP h (regs s (unat (EXYNOS_SVC_OFFSET h))) \<noteq> 0 \<and>
    unat (EXYNOS_SVC_GROUP h (regs s (unat (EXYNOS_SVC_OFFSET h)))) - 1 < length pin_banks \<and>
    irq_domain (pin_banks ! (unat (EXYNOS_SVC_GROUP h (regs s (unat (EXYNOS_SVC_OFFSET h)))) - 1))
      = Some domain \<longrightarrow>
      exynos_eint_gpio_irq h pin_banks s =
        (if irq_linear_revmap domain
              (unat (regs s (unat (EXYNOS_SVC_OFFSET h)) AND EXYNOS_SVC_NUM_MASK h)) = 0
         then Some (IRQ_NONE, s)
         else Some (IRQ_HANDLED, s\<lparr> dispatched := dispatched s @
                [irq_linear_revmap domain
                   (unat (regs s (unat (EXYNOS_SVC_OFFSET h)) AND EXYNOS_SVC_NUM_MASK h))] \<rparr>)))"
  by (simp add: exynos_eint_gpio_irq_def readl_def generic_handle_irq_def Let_def)

theorem gpio_irq_dispatch_witness:
  "EXYNOS_SVC_GROUP kernel_hdr (regs ex_svc_sys (unat (EXYNOS_SVC_OFFSET kernel_hdr))) = 1 \<and>
   irq_domain ([ex_bank] ! 0) = Some [160, 161, 162, 163, 164, 165, 166, 167] \<and>
   exynos_eint_gpio_irq kernel_hdr [ex_bank] ex_svc_sys
     = Some (IRQ_HANDLED, ex_svc_sys\<lparr> dispatched := [163] \<rparr>)"
proof -
  have g: "EXYNOS_SVC_GROUP kernel_hdr (regs ex_svc_sys (unat (EXYNOS_SVC_OFFSET kernel_hdr))) = 1"
    by (simp add: kernel_hdr_def ex_svc_sys_def)
  have d': "irq_domain ex_bank = Some [160, 161, 162, 163, 164, 165, 166, 167]"
    by (simp add: ex_bank_def)
  have p: "irq_linear_revmap [160, 161, 162, 163, 164, 165, 166, 167]
      (unat (regs ex_svc_sys (unat (EXYNOS_SVC_OFFSET kernel_hdr)) AND EXYNOS_SVC_NUM_MASK kernel_hdr))
      = 163"
    by (simp add: kernel_hdr_def ex_svc_sys_def irq_linear_revmap_def)
  have e: "dispatched ex_svc_sys = []"
    by (simp add: ex_svc_sys_def ex_sys_def)
  from gpio_irq_dispatch [of kernel_hdr ex_svc_sys "[ex_bank]" "[160, 161, 162, 163, 164, 165, 166, 167]"]
  show ?thesis by (simp add: g d' p e)
qed

section \<open>Wake mask\<close>

lemma set_wake_bit_clear:
  fixes m :: u32
  assumes "pos < 32"
  shows "bit (ucast (ucast m AND NOT (push_bit pos (1 :: 64 word))) :: u32) n \<longleftrightarrow> bit m n \<and> n \<noteq> pos"
  using assms by (auto simp add: bit_simps dest: bit_imp_le_length)

lemma set_wake_bit_set:
  fixes m :: u32
  assumes "pos < 32" "n < 32"
  shows "bit (ucast (ucast m OR push_bit pos (1 :: 64 word)) :: u32) n \<longleftrightarrow> bit m n \<or> n = pos"
  using assms by (auto simp add: bit_simps dest: bit_imp_le_length)

lemma wake_pos_count:
  assumes "wake_pos irqd < 32"
  shows "unat (2 * eint_offset (chip_data irqd)) + hwirq irqd = wake_pos irqd"
proof -
  have "2 * unat (eint_offset (chip_data irqd)) < 2 ^ 32"
    using assms by (simp add: wake_pos_def)
  then have "unat (2 * eint_offset (chip_data irqd)) = 2 * unat (eint_offset (chip_data irqd))"
    by (simp add: unat_word_ariths)
  then show ?thesis by (simp add: wake_pos_def)
qed

text \<open>
  Claim C5. The wake mask is initialised with all 32 bits set. For a wakeup line whose
  position \<^verbatim>\<open>bank.eint_offset * 2 + pin\<close> lies within the 32-bit mask, enabling wake
  clears the bit at that position and changes no other bit, disabling wake sets that bit and
  changes no other bit, and neither touches a hardware register.
\<close>

theorem set_wake_one_bit:
  assumes "wake_pos irqd < 32"
  shows "(\<forall>n<32. bit exynos_eint_wake_mask_init n) \<and>
    (on \<noteq> 0 \<longrightarrow> (\<forall>n. bit (exynos_eint_wake_mask (exynos_wkup_irq_set_wake irqd on s)) n
        \<longleftrightarrow> bit (exynos_eint_wake_mask s) n \<and> n \<noteq> wake_pos irqd)) \<and>
    (on = 0 \<longrightarrow> (\<forall>n<32. bit (exynos_eint_wake_mask (exynos_wkup_irq_set_wake irqd on s)) n
        \<longleftrightarrow> bit (exynos_eint_wake_mask s) n \<or> n = wake_pos irqd)) \<and>
    regs (exynos_wkup_irq_set_wake irqd on s) = regs s \<and>
    io_log (exynos_wkup_irq_set_wake irqd on s) = io_log s"
proof -
  have i: "\<forall>n<32. bit exynos_eint_wake_mask_init n"
  proof -
    have e: "exynos_eint_wake_mask_init = - 1"
      by (simp add: exynos_eint_wake_mask_init_def)
    have "bit (- 1 :: u32) n" if "n < 32" for n
      using that by simp
    then show ?thesis unfolding e by blast
  qed
  show ?thesis
    using i set_wake_bit_clear [OF assms] set_wake_bit_set [OF assms]
    by (simp add: exynos_wkup_irq_set_wake_def wake_pos_count [OF assms] Let_def)
qed

theorem set_wake_one_bit_witness:
  "wake_pos ex_irqd < 32 \<and>
   (\<forall>n. bit (exynos_eint_wake_mask (exynos_wkup_irq_set_wake ex_irqd 1 ex_sys)) n
        \<longleftrightarrow> bit (exynos_eint_wake_mask ex_sys) n \<and> n \<noteq> wake_pos ex_irqd)"
proof -
  have p: "wake_pos ex_irqd < 32"
    by (simp add: wake_pos_def ex_irqd_def ex_bank_def)
  from set_wake_one_bit [OF p, of 1 ex_sys] p show ?thesis by simp
qed

text \<open>Line 3 of the bank at offset 4 is bit 11 of the mask.\<close>

lemma set_wake_value:
  "wake_pos ex_irqd = 11 \<and>
   exynos_eint_wake_mask (exynos_wkup_irq_set_wake ex_irqd 1 ex_sys) = 0xfffff7ff \<and>
   exynos_eint_wake_mask (exynos_wkup_irq_set_wake ex_irqd 0
     (exynos_wkup_irq_set_wake ex_irqd 1 ex_sys)) = 0xffffffff"
  by (simp add: wake_pos_def exynos_wkup_irq_set_wake_def ex_irqd_def ex_bank_def ex_sys_def)

section \<open>Muxed wakeup dispatch\<close>

text \<open>\<^verbatim>\<open>fls\<close> finds the highest set bit.\<close>

lemma fls_below_le: "fls_below n x \<le> n"
  by (induction n) auto

lemma fls_below_top: "fls_below n x \<le> j \<Longrightarrow> j < n \<Longrightarrow> \<not> bit x j"
  by (induction n) (auto split: if_splits simp add: less_Suc_eq)

lemma fls_highest:
  fixes pend :: u32
  assumes "pend \<noteq> 0"
  shows "fls pend - 1 < 32" and "bit pend (fls pend - 1)"
    and "\<And>j. fls pend - 1 < j \<Longrightarrow> \<not> bit pend j"
proof -
  have nz: "fls pend \<noteq> 0" using assms by (rule fls_nonzero)
  show "bit pend (fls pend - 1)"
    using nz fls_below_bit [of 32 pend] by (simp add: fls_def)
  show "fls pend - 1 < 32"
    using nz fls_below_le [of 32 pend] by (simp add: fls_def)
  show "\<not> bit pend j" if "fls pend - 1 < j" for j
  proof (cases "j < 32")
    case True
    from that nz have "fls_below 32 pend \<le> j" by (simp add: fls_def)
    then show ?thesis using True by (rule fls_below_top)
  next
    case False
    then show ?thesis by (auto dest: bit_imp_le_length)
  qed
qed

lemma rev_upt_split:
  assumes "k < n"
  shows "rev [0 ..< n] = rev [Suc k ..< n] @ k # rev [0 ..< k]"
proof -
  have "[0 ..< n] = [0 ..< k] @ [k ..< n]"
    using assms by (metis le0 le_add_diff_inverse less_imp_le_nat upt_add_eq_append)
  also have "[k ..< n] = k # [Suc k ..< n]"
    using assms by (rule upt_conv_Cons)
  finally show ?thesis by simp
qed

text \<open>One iteration of the loop takes the head of the descending list of set bits.\<close>

lemma set_bits_desc_step:
  fixes pend :: u32
  assumes "pend \<noteq> 0"
  shows "set_bits_desc pend
    = (fls pend - 1) # set_bits_desc (pend AND NOT (push_bit (fls pend - 1) 1))"
proof -
  define k where "k = fls pend - 1"
  define p where "p = pend AND NOT (push_bit k 1)"
  note hi = fls_highest [OF assms, folded k_def]
  have b: "bit p j \<longleftrightarrow> bit pend j \<and> j \<noteq> k" for j
    by (auto simp add: p_def bit_simps dest: bit_imp_le_length)
  have top: "filter (bit pend) (rev [Suc k ..< 32]) = []"
    using hi(3) by (auto simp add: filter_empty_conv)
  have top': "filter (bit p) (rev [Suc k ..< 32]) = []"
    using hi(3) by (auto simp add: filter_empty_conv b)
  have low: "filter (bit p) (rev [0 ..< k]) = filter (bit pend) (rev [0 ..< k])"
    by (rule filter_cong) (auto simp add: b)
  have "set_bits_desc pend = k # filter (bit pend) (rev [0 ..< k])"
    using hi(2) top by (simp add: set_bits_desc_def rev_upt_split [OF hi(1)])
  moreover have "set_bits_desc p = filter (bit pend) (rev [0 ..< k])"
    using top' low by (simp add: set_bits_desc_def rev_upt_split [OF hi(1)] b)
  ultimately show ?thesis by (simp add: p_def k_def)
qed

lemma set_bits_desc_zero: "set_bits_desc 0 = []"
  by (simp add: set_bits_desc_def)

lemma demux_eint_dispatches:
  "exynos_irq_demux_eint pend domain s
     = s\<lparr> dispatched := dispatched s @ map (irq_find_mapping domain) (set_bits_desc pend) \<rparr>"
proof (induction pend domain s rule: exynos_irq_demux_eint.induct)
  case (1 pend domain s)
  show ?case
  proof (cases "pend = 0")
    case True
    then show ?thesis
      by (subst exynos_irq_demux_eint.simps) (simp add: set_bits_desc_zero)
  next
    case False
    have "exynos_irq_demux_eint pend domain s =
        exynos_irq_demux_eint (pend AND NOT (push_bit (fls pend - 1) 1)) domain
          (generic_handle_irq (irq_find_mapping domain (fls pend - 1)) s)"
      using False by (subst exynos_irq_demux_eint.simps) (simp add: Let_def)
    also have "\<dots> = s\<lparr> dispatched := dispatched s @
        map (irq_find_mapping domain) (set_bits_desc pend) \<rparr>"
      using "1.IH" [OF False refl refl refl]
      by (simp add: set_bits_desc_step [OF False] generic_handle_irq_def)
    finally show ?thesis .
  qed
qed

lemma demux_bank_dispatches:
  "demux_bank h b s = s\<lparr> dispatched := dispatched s @ bank_lines h b s \<rparr>"
  by (simp add: demux_bank_def demux_eint_dispatches bank_lines_def pending_unmasked_def
      readl_def Let_def)

lemma bank_lines_dispatched [simp]:
  "bank_lines h b (s\<lparr> dispatched := d \<rparr>) = bank_lines h b s"
  by (simp add: bank_lines_def pending_unmasked_def)

lemma fold_demux_bank:
  "fold (demux_bank h) bs s
     = s\<lparr> dispatched := dispatched s @ concat (map (\<lambda>b. bank_lines h b s) bs) \<rparr>"
  by (induction bs arbitrary: s) (simp_all add: demux_bank_dispatches)

lemma set_bits_desc_sorted: "sorted_wrt (\<lambda>i j. j < i) (set_bits_desc w)"
proof -
  have "sorted_wrt (\<lambda>i j. j < i) (rev [0 ..< 32])"
    by (simp only: sorted_wrt_rev sorted_wrt_upt)
  then show ?thesis
    unfolding set_bits_desc_def by (rule sorted_wrt_filter)
qed

lemma set_bits_desc_set: "set (set_bits_desc w) = {n. bit w n}"
  by (auto simp add: set_bits_desc_def dest: bit_imp_le_length)

lemma set_bits_desc_distinct: "distinct (set_bits_desc w)"
  by (simp add: set_bits_desc_def)

text \<open>
  Claim C1. \<^verbatim>\<open>exynos_irq_demux_eint16_31\<close> returns, having visited the banks of the group
  in order and having dispatched, for each bank, the virtual lines of the set bits of that
  bank's \<^verbatim>\<open>pending & ~mask\<close>: each set bit once, in strictly descending bit order.
  Nothing else of the state changes.
\<close>

theorem demux_eint16_31_dispatches:
  "exynos_irq_demux_eint16_31 h eintd s
     = s\<lparr> dispatched := dispatched s @ concat (map (\<lambda>b. bank_lines h b s) eintd) \<rparr>
   \<and> (\<forall>b. bank_lines h b s
          = map (irq_find_mapping (irq_domain b)) (set_bits_desc (pending_unmasked h b s))
        \<and> set (set_bits_desc (pending_unmasked h b s)) = {n. bit (pending_unmasked h b s) n}
        \<and> distinct (set_bits_desc (pending_unmasked h b s))
        \<and> sorted_wrt (\<lambda>i j. j < i) (set_bits_desc (pending_unmasked h b s)))"
  by (simp add: exynos_irq_demux_eint16_31_def fold_demux_bank bank_lines_def
      set_bits_desc_set set_bits_desc_distinct set_bits_desc_sorted)

text \<open>Bits 9 and 2 of the first bank, then bit 5 of the second.\<close>

lemma demux_eint16_31_example:
  "dispatched (exynos_irq_demux_eint16_31 kernel_hdr ex_eintd ex_mux_sys) = [109, 102, 205]"
  by code_simp


section \<open>Filter configuration\<close>

text \<open>Rewriting field \<open>i\<close> leaves every other field as it was.\<close>

lemma field_other:
  fixes con code :: u32
  assumes "take_bit len code = code" "i * len + len \<le> 32" "j * len + len \<le> 32" "j \<noteq> i"
  shows "take_bit len (drop_bit (j * len)
           ((con AND NOT (push_bit (i * len) (mask len))) OR push_bit (i * len) code))
         = take_bit len (drop_bit (j * len) con)"
proof (rule bit_word_eqI)
  fix n assume "n < LENGTH(32)"
  define X where "X = (con AND NOT (push_bit (i * len) (mask len))) OR push_bit (i * len) code"
  have "bit X (j * len + n) = bit con (j * len + n)" if n: "n < len"
  proof -
    have lt: "j * len + n < 32" using n assms(3) by arith
    have out: "\<not> (i * len \<le> j * len + n \<and> j * len + n < i * len + len)"
    proof (cases "j < i")
      case True
      then have "Suc j * len \<le> i * len" by (intro mult_le_mono1) simp
      then show ?thesis using n by simp
    next
      case False
      with assms(4) have "Suc i * len \<le> j * len" by (intro mult_le_mono1) simp
      then show ?thesis by simp
    qed
    show ?thesis
      unfolding X_def using out by (simp only: field_bit [OF assms(1,2) lt]) simp
  qed
  then show "bit (take_bit len (drop_bit (j * len)
           ((con AND NOT (push_bit (i * len) (mask len))) OR push_bit (i * len) code))) n
         = bit (take_bit len (drop_bit (j * len) con)) n"
    unfolding X_def [symmetric] by (simp only: bit_take_bit_iff bit_drop_bit_eq) auto
qed

text \<open>The effect of one iteration of the loop, and of the first \<open>m\<close> iterations.\<close>

lemma flt_config_step_regs:
  assumes "flt_word_ok h cw"
  shows "regs (flt_config_step h flt_reg cw i s) =
     (regs s)(unat flt_reg :=
          (regs s (unat flt_reg) AND NOT (push_bit (i * EXYNOS_EINT_FLTCON_LEN h)
              (mask (EXYNOS_EINT_FLTCON_LEN h)))) OR push_bit (i * EXYNOS_EINT_FLTCON_LEN h) cw,
        unat flt_reg + 4 :=
          (regs s (unat flt_reg) AND NOT (push_bit (i * EXYNOS_EINT_FLTCON_LEN h)
              (mask (EXYNOS_EINT_FLTCON_LEN h)))) OR push_bit (i * EXYNOS_EINT_FLTCON_LEN h) cw)"
  using assms by (simp add: flt_config_step_def flt_word_ok_def readl_def writel_def Let_def)

lemma flt_config_step_log:
  "\<exists>v. io_log (flt_config_step h flt_reg cw i s)
        = io_log s @ [Writel (unat flt_reg) v, Writel (unat flt_reg + 4) v]"
  by (simp add: flt_config_step_def writel_def Let_def)

lemma flt_loop_inv:
  fixes h :: exynos_hdr and cw flt_reg :: u32 and m :: nat and s :: sys
  assumes ok: "flt_word_ok h cw" and fits: "m * EXYNOS_EINT_FLTCON_LEN h \<le> 32"
  defines "s' \<equiv> fold (flt_config_step h flt_reg cw) [0 ..< m] s"
  shows "(\<forall>i<m. flt_field h i (regs s' (unat flt_reg)) = cw)
     \<and> (\<forall>j. m \<le> j \<and> j * EXYNOS_EINT_FLTCON_LEN h + EXYNOS_EINT_FLTCON_LEN h \<le> 32 \<longrightarrow>
            flt_field h j (regs s' (unat flt_reg)) = flt_field h j (regs s (unat flt_reg)))
     \<and> (0 < m \<longrightarrow> regs s' (unat flt_reg + 4) = regs s' (unat flt_reg))
     \<and> (m = 0 \<longrightarrow> s' = s)
     \<and> (\<forall>a. a \<noteq> unat flt_reg \<and> a \<noteq> unat flt_reg + 4 \<longrightarrow> regs s' a = regs s a)
     \<and> (\<exists>vs. length vs = m \<and> io_log s' = io_log s
            @ concat (map (\<lambda>v. [Writel (unat flt_reg) v, Writel (unat flt_reg + 4) v]) vs))"
  unfolding s'_def using fits
proof (induction m)
  case 0
  show ?case by simp
next
  case (Suc m)
  let ?len = "EXYNOS_EINT_FLTCON_LEN h"
  let ?a = "unat flt_reg"
  define t where "t = fold (flt_config_step h flt_reg cw) [0 ..< m] s"
  have fits_m: "m * ?len \<le> 32" and fit: "m * ?len + ?len \<le> 32"
    using Suc.prems by simp_all
  note IH = Suc.IH [OF fits_m, folded t_def]
  note IH1 = IH [THEN conjunct1]
  note IH2 = IH [THEN conjunct2, THEN conjunct1]
  note IH5 = IH [THEN conjunct2, THEN conjunct2, THEN conjunct2, THEN conjunct2, THEN conjunct1]
  note IH6 = IH [THEN conjunct2, THEN conjunct2, THEN conjunct2, THEN conjunct2, THEN conjunct2]
  have run: "fold (flt_config_step h flt_reg cw) [0 ..< Suc m] s = flt_config_step h flt_reg cw m t"
    by (simp add: t_def)
  have code: "take_bit ?len cw = cw" using ok by (simp add: flt_word_ok_def)
  note R = flt_config_step_regs [OF ok, of flt_reg m t]
  have here: "flt_field h m (regs (flt_config_step h flt_reg cw m t) ?a) = cw"
    unfolding R flt_field_def using field_read [OF code fit] by simp
  have other: "flt_field h j (regs (flt_config_step h flt_reg cw m t) ?a) = flt_field h j (regs t ?a)"
    if "j \<noteq> m" "j * ?len + ?len \<le> 32" for j
    unfolding R flt_field_def using field_other [OF code fit that(2,1)] by simp
  have below: "j * ?len + ?len \<le> 32" if "j < m" for j
  proof -
    from that have "Suc j * ?len \<le> m * ?len" by (intro mult_le_mono1) simp
    then show ?thesis using fits_m by simp
  qed
  have 1: "\<forall>i<Suc m. flt_field h i (regs (flt_config_step h flt_reg cw m t) ?a) = cw"
  proof (intro allI impI)
    fix i assume "i < Suc m"
    show "flt_field h i (regs (flt_config_step h flt_reg cw m t) ?a) = cw"
    proof (cases "i = m")
      case True
      then show ?thesis using here by simp
    next
      case False
      with \<open>i < Suc m\<close> have "i < m" by simp
      then show ?thesis using other [OF False below] IH1 by simp
    qed
  qed
  have 2: "\<forall>j. Suc m \<le> j \<and> j * ?len + ?len \<le> 32 \<longrightarrow>
      flt_field h j (regs (flt_config_step h flt_reg cw m t) ?a) = flt_field h j (regs s ?a)"
  proof (intro allI impI)
    fix j assume j: "Suc m \<le> j \<and> j * ?len + ?len \<le> 32"
    then have "j \<noteq> m" "m \<le> j" by simp_all
    then show "flt_field h j (regs (flt_config_step h flt_reg cw m t) ?a) = flt_field h j (regs s ?a)"
      using other [of j] IH2 j by simp
  qed
  have 3: "regs (flt_config_step h flt_reg cw m t) (?a + 4) = regs (flt_config_step h flt_reg cw m t) ?a"
    unfolding R by simp
  have 5: "\<forall>a. a \<noteq> ?a \<and> a \<noteq> ?a + 4 \<longrightarrow> regs (flt_config_step h flt_reg cw m t) a = regs s a"
    unfolding R using IH5 by simp
  have 6: "\<exists>vs. length vs = Suc m \<and> io_log (flt_config_step h flt_reg cw m t) = io_log s
            @ concat (map (\<lambda>v. [Writel ?a v, Writel (?a + 4) v]) vs)"
  proof -
    from IH6 obtain vs where vs: "length vs = m"
      "io_log t = io_log s @ concat (map (\<lambda>v. [Writel ?a v, Writel (?a + 4) v]) vs)" by blast
    from flt_config_step_log [of h flt_reg cw m t] obtain v where
      v: "io_log (flt_config_step h flt_reg cw m t) = io_log t @ [Writel ?a v, Writel (?a + 4) v]" by blast
    have "length (vs @ [v]) = Suc m" using vs(1) by simp
    moreover have "io_log (flt_config_step h flt_reg cw m t) = io_log s
            @ concat (map (\<lambda>v. [Writel ?a v, Writel (?a + 4) v]) (vs @ [v]))"
      using v vs(2) by simp
    ultimately show ?thesis by blast
  qed
  show ?case unfolding run using 1 2 3 5 6 by (intro conjI) simp_all
qed

lemma flt_config_inv:
  fixes h :: exynos_hdr and en sel width :: u32 and bank :: samsung_pin_bank and s :: sys
  assumes ok: "flt_word_ok h (flt_con_of h en sel width)"
    and fits: "flt_pairs bank * EXYNOS_EINT_FLTCON_LEN h \<le> 32"
  defines "s' \<equiv> exynos_eint_flt_config h en sel width bank s"
    and "a \<equiv> unat (flt_reg_of h bank)"
  shows "(\<forall>i<flt_pairs bank. flt_field h i (regs s' a) = flt_con_of h en sel width)
     \<and> (\<forall>j. flt_pairs bank \<le> j \<and> j * EXYNOS_EINT_FLTCON_LEN h + EXYNOS_EINT_FLTCON_LEN h \<le> 32 \<longrightarrow>
            flt_field h j (regs s' a) = flt_field h j (regs s a))
     \<and> (0 < flt_pairs bank \<longrightarrow> regs s' (a + 4) = regs s' a)
     \<and> (flt_pairs bank = 0 \<longrightarrow> s' = s)
     \<and> (\<forall>x. x \<noteq> a \<and> x \<noteq> a + 4 \<longrightarrow> regs s' x = regs s x)
     \<and> (\<exists>vs. length vs = flt_pairs bank \<and> io_log s' = io_log s
            @ concat (map (\<lambda>v. [Writel a v, Writel (a + 4) v]) vs))"
proof -
  have "s' = fold (flt_config_step h (flt_reg_of h bank) (flt_con_of h en sel width))
      [0 ..< flt_pairs bank] s"
    by (simp add: s'_def exynos_eint_flt_config_def flt_pairs_def drop_bit_eq_div)
  then show ?thesis
    unfolding a_def using flt_loop_inv [OF ok fits, of "flt_reg_of h bank" s] by simp
qed





text \<open>The digital filter setting of an 8-pin bank at offset 4.\<close>

lemma flt_config_value:
  "flt_con_of kernel_hdr 0x80 0x40 0 = 0xC0 \<and>
   unat (flt_reg_of kernel_hdr ex_bank) = 0x808 \<and>
   regs (exynos_eint_flt_config kernel_hdr 0x80 0x40 0 ex_bank ex_sys) 0x808 = 0xC0C0C0C0 \<and>
   regs (exynos_eint_flt_config kernel_hdr 0x80 0x40 0 ex_bank ex_sys) 0x80C = 0xC0C0C0C0"
  by code_simp


section \<open>Suspend and resume\<close>


text \<open>The control words that the calls of lines 650 and 694 of the source build are the
  analog and the digital word.\<close>

lemma flt_con_of_modes:
  assumes "flt_hdr_ok h"
  shows "flt_con_of h (EXYNOS_EINT_FLTCON_EN h) 0 0 = analog_word h"
    and "flt_con_of h (EXYNOS_EINT_FLTCON_EN h) (EXYNOS_EINT_FLTCON_SEL h) 0 = digital_word h"
  using assms
  by (simp_all add: flt_hdr_ok_def flt_con_of_def analog_word_def digital_word_def Let_def or.assoc)

lemma flt_words_ok:
  assumes "flt_hdr_ok h"
  shows "flt_word_ok h (analog_word h)" and "flt_word_ok h (digital_word h)"
  using assms
  by (simp_all add: flt_hdr_ok_def flt_word_ok_def analog_word_def digital_word_def take_bit_or)






lemma flt_config_holds:
  assumes ok: "flt_word_ok h (flt_con_of h en sel width)"
    and fits: "flt_pairs b * EXYNOS_EINT_FLTCON_LEN h \<le> 32"
  shows "flt_holds h (flt_con_of h en sel width) b (exynos_eint_flt_config h en sel width b s)"
proof -
  note I = flt_config_inv [OF ok fits, of s]
  have "0 < flt_pairs b" if "i < flt_pairs b" for i
    using that by simp
  then show ?thesis
    unfolding flt_holds_def
    using I [THEN conjunct1] I [THEN conjunct2, THEN conjunct2, THEN conjunct1]
    by (intro allI impI conjI) simp_all
qed















text \<open>The setting that initialization programs for a bank is the digital word.\<close>

lemma init_filter_word:
  assumes "flt_hdr_ok h" and "flt_pairs b * EXYNOS_EINT_FLTCON_LEN h \<le> 32"
  shows "flt_holds h (digital_word h) b
     (exynos_eint_flt_config h (EXYNOS_EINT_FLTCON_EN h) (EXYNOS_EINT_FLTCON_SEL h) 0 b s)"
proof -
  have "flt_word_ok h (flt_con_of h (EXYNOS_EINT_FLTCON_EN h) (EXYNOS_EINT_FLTCON_SEL h) 0)"
    using flt_words_ok(2) [OF assms(1)] by (simp add: flt_con_of_modes [OF assms(1)])
  from flt_config_holds [OF this assms(2), of s] show ?thesis
    by (simp add: flt_con_of_modes [OF assms(1)])
qed





text \<open>The definitions a concrete run of suspend and resume unfolds.\<close>

lemmas run_defs = suspend_reg_def suspend_resume_reg_def suspend_resume_from_reg_def
  exynos_pinctrl_suspend_bank_def exynos_pinctrl_resume_bank_def exynos_eint_flt_config_def
  flt_config_step_def flt_con_of_def flt_reg_of_def readl_def writel_def Let_def flt0_addr_def
  is_gpio_def is_wkup_def flt_pairs_def flt_field_def analog_word_def

lemma upt4: "[0 ..< 4] = [0, 1, 2, 3]" "[0 ..< 3] = [0, 1, 2]"
  by (simp_all add: upt_rec)

text \<open>
  The registers of the example table: the control and the two filter registers of the
  GPIO-demuxed bank (\<open>0x704\<close>, \<open>0x808\<close>, \<open>0x80C\<close>) and the filter registers of the
  8-pin and the 6-pin wakeup bank (\<open>0x800\<close>, \<open>0x804\<close>; \<open>0x810\<close>, \<open>0x814\<close>). After
  suspend the wakeup banks' pin-pair fields are \<open>0x80\<close>; after suspend and resume they are
  \<open>0xC0\<close> and the GPIO-demuxed bank's registers are as before; and when the registers
  are lost in between (all 0 at these addresses when resume starts), resume writes the values
  of before the suspend back.
\<close>

lemma suspend_values:
  "map (suspend_reg kernel_hdr ex_banks ex_sys) [0x704, 0x808, 0x80C, 0x800, 0x804, 0x810, 0x814]
     = map Some [0x12345678, 0x12345678, 0x12345678,
                 0x80808080, 0x80808080, 0x12808080, 0x12808080]"
  by (simp add: run_defs ex_banks_def ex_bank_def ex_sys_def kernel_hdr_def upt4)

lemma suspend_resume_values:
  "map (suspend_resume_reg kernel_hdr ex_banks ex_sys)
       [0x704, 0x808, 0x80C, 0x800, 0x804, 0x810, 0x814]
     = map Some [0x12345678, 0x12345678, 0x12345678,
                 0xC0C0C0C0, 0xC0C0C0C0, 0x12C0C0C0, 0x12C0C0C0]"
  by (simp add: run_defs ex_banks_def ex_bank_def ex_sys_def kernel_hdr_def upt4)

lemma suspend_resume_from_values:
  "map (regs ex_mux_sys) [0x704, 0x808, 0x80C] = [0, 0, 0] \<and>
   map (suspend_resume_from_reg kernel_hdr ex_banks ex_sys ex_mux_sys)
       [0x704, 0x808, 0x80C, 0x800, 0x804, 0x810, 0x814]
     = map Some [0x12345678, 0x12345678, 0x12345678,
                 0xC0C0C0C0, 0xC0C0C0C0, 0x00C0C0C0, 0x00C0C0C0]"
  by (simp add: run_defs ex_banks_def ex_bank_def ex_sys_def ex_mux_sys_def kernel_hdr_def upt4)


lemma suspend_resume_alias_values:
  "flt0_addr kernel_hdr gpk0 = 0x810 \<and> unat (flt_reg_of kernel_hdr gpx2) = 0x810 \<and>
   regs ex_sys 0x810 = 0x12345678 \<and>
   suspend_resume_reg kernel_hdr [gpk0, gpx2] ex_sys 0x810 = Some 0xC0C0C0C0 \<and>
   unat (flt_reg_of kernel_hdr wide_bank) = 0x808 \<and>
   unat (flt_reg_of kernel_hdr narrow_bank) + 4 = 0x808 \<and>
   suspend_reg kernel_hdr [wide_bank, narrow_bank] ex_sys 0x808 = Some 0x12345680 \<and>
   analog_word kernel_hdr = 0x80"
  by (simp add: run_defs gpk0_def gpx2_def wide_bank_def narrow_bank_def ex_sys_def
      kernel_hdr_def upt4)

section \<open>Initialization\<close>

lemma added_append [simp]: "added_domains (ev @ ev') = added_domains ev @ added_domains ev'"
  by (induction ev rule: added_domains.induct) simp_all

lemma removed_append [simp]:
  "removed_domains (ev @ ev') = removed_domains ev @ removed_domains ev'"
  by (induction ev rule: removed_domains.induct) simp_all

lemma added_map_remove [simp]: "added_domains (map Domain_remove ks) = []"
  by (induction ks) simp_all

lemma removed_map_remove [simp]: "removed_domains (map Domain_remove ks) = ks"
  by (induction ks) simp_all

text \<open>The \<^verbatim>\<open>err_domains\<close> loop removes the domains of the GPIO-demuxed banks below the
  failing index, highest index first.\<close>

lemma err_domains_eq:
  "err_domains i banks ev = ev @ map Domain_remove (rev (gpio_banks_below i banks))"
  by (induction i arbitrary: ev) (simp_all add: gpio_banks_below_def)

lemma gpio_banks_below_update:
  assumes "eint_type b = eint_type (banks ! i)"
  shows "gpio_banks_below k (banks[i := b]) = gpio_banks_below k banks"
proof -
  have "eint_type (banks[i := b] ! x) = eint_type (banks ! x)" for x
  proof (cases "i < length banks")
    case True
    then show ?thesis using assms by (cases "x = i") simp_all
  next
    case False
    then have "banks[i := b] = banks" by (intro list_update_beyond) simp
    then show ?thesis by simp
  qed
  then show ?thesis by (simp add: gpio_banks_below_def)
qed

lemma gpio_banks_below_Suc:
  "gpio_banks_below (Suc i) banks =
     gpio_banks_below i banks @ (if eint_type (banks ! i) = EINT_TYPE_GPIO then [i] else [])"
  by (simp add: gpio_banks_below_def)

text \<open>Whenever \<^verbatim>\<open>exynos_eint_gpio_init\<close> fails, the domains it created have been
  removed in the reverse of the order of their creation.\<close>

lemma gpio_init_loop_unwinds:
  assumes "added_domains ev = gpio_banks_below i banks" "removed_domains ev = []"
  shows "init_errno (gpio_init_loop env h i banks ev s) \<noteq> Inr () \<longrightarrow>
     removed_domains (init_events (gpio_init_loop env h i banks ev s))
       = rev (added_domains (init_events (gpio_init_loop env h i banks ev s)))"
  using assms
proof (induction env h i banks ev s rule: gpio_init_loop.induct)
  case (1 env h i banks ev s)
  show ?case
  proof (cases "i < length banks")
    case False
    then show ?thesis
      by (subst (1 2 3) gpio_init_loop.simps) (simp add: init_errno_def)
  next
    case lt: True
    show ?thesis
    proof (cases "eint_type (banks ! i) = EINT_TYPE_GPIO")
      case False
      have "added_domains ev = gpio_banks_below (Suc i) banks"
        using False "1.prems"(1) by (simp add: gpio_banks_below_Suc)
      from "1.IH"(1) [OF lt refl False this "1.prems"(2)] show ?thesis
        using lt False by (subst (1 2 3) gpio_init_loop.simps) (simp add: Let_def)
    next
      case g: True
      show ?thesis
      proof (cases "domain_add env i")
        case None
        then show ?thesis
          using lt g "1.prems"
          by (subst (1 2 3) gpio_init_loop.simps)
             (simp add: Let_def init_errno_def init_events_def err_domains_eq)
      next
        case (Some d)
        show ?thesis
        proof (cases "kzalloc_ok env i")
          case False
          then show ?thesis
            using lt g Some "1.prems"
            by (subst (1 2 3) gpio_init_loop.simps)
               (simp add: Let_def init_errno_def init_events_def err_domains_eq)
        next
          case True
          let ?bank = "(banks ! i)\<lparr> irq_domain := Some d, soc_priv := Some \<lparr> save_eint_con = 0,
                                   save_eint_fltcon0 = 0, save_eint_fltcon1 = 0 \<rparr> \<rparr>"
          have a: "added_domains (ev @ [Domain_add i]) = gpio_banks_below (Suc i) (banks[i := ?bank])"
            using g "1.prems"(1) lt
            by (simp add: gpio_banks_below_update gpio_banks_below_Suc)
          have r: "removed_domains (ev @ [Domain_add i]) = []"
            using "1.prems"(2) by simp
          from "1.IH"(2) [OF lt refl _ Some refl refl _ refl refl a r] g True
          show ?thesis
            using lt g Some True
            by (subst (1 2 3) gpio_init_loop.simps) (simp add: Let_def)
        qed
      qed
    qed
  qed
qed

lemma gpio_init_unwinds:
  "init_errno (exynos_eint_gpio_init env h banks s) \<noteq> Inr () \<longrightarrow>
     removed_domains (init_events (exynos_eint_gpio_init env h banks s))
       = rev (added_domains (init_events (exynos_eint_gpio_init env h banks s)))"
proof -
  have "added_domains [] = gpio_banks_below 0 banks" "removed_domains [] = []"
    by (simp_all add: gpio_banks_below_def)
  from gpio_init_loop_unwinds [OF this, of env h s] show ?thesis
    by (simp add: exynos_eint_gpio_init_def init_events_def)
qed

text \<open>With domain creation failing at the second of two GPIO-demuxed banks, the first
  bank's domain is removed.\<close>

lemma gpio_init_example:
  "init_errno (exynos_eint_gpio_init ex_wkup_env kernel_hdr ex_gpio_banks ex_sys) = Inl ENXIO \<and>
   init_events (exynos_eint_gpio_init ex_wkup_env kernel_hdr ex_gpio_banks ex_sys)
     = [Domain_add 0, Domain_remove 0]"
  by (simp add: exynos_eint_gpio_init_def gpio_init_loop.simps init_errno_def init_events_def
      ex_wkup_env_def ex_gpio_banks_def Let_def)

text \<open>
  Claim C8. With domain creation failing at the second of two wakeup banks,
  \<^verbatim>\<open>exynos_eint_wkup_init\<close> returns \<^verbatim>\<open>-ENXIO\<close> and the domain of the first bank,
  already created, is not removed: the wakeup entry point has no unwinding, unlike the GPIO
  entry point.
\<close>

theorem wkup_init_leaves_domain:
  "init_errno (exynos_eint_wkup_init ex_wkup_env kernel_hdr ex_wkup_banks ex_sys) = Inl ENXIO \<and>
   init_events (exynos_eint_wkup_init ex_wkup_env kernel_hdr ex_wkup_banks ex_sys)
     = [Domain_add 0] \<and>
   removed_domains (init_events (exynos_eint_wkup_init ex_wkup_env kernel_hdr ex_wkup_banks ex_sys))
     \<noteq> rev (added_domains
         (init_events (exynos_eint_wkup_init ex_wkup_env kernel_hdr ex_wkup_banks ex_sys)))"
  by (simp add: exynos_eint_wkup_init_def wkup_init_loop.simps init_errno_def init_events_def
      ex_wkup_env_def ex_wkup_banks_def Let_def)


section \<open>Stack dump serialization\<close>

text \<open>
  Claim C10. A call of \<^verbatim>\<open>_dump_stack\<close> that finds \<^verbatim>\<open>dump_lock\<close> free (\<open>-1\<close>) or
  held by the calling CPU returns, and on return the lock has its value of entry: \<open>-1\<close>
  again in the first case, still the CPU's id in the second, where the nested call does not
  release the outer holder's lock. The interrupt flag is restored and one dump has been
  printed.
\<close>

theorem dump_stack_restores_lock:
  assumes "dump_lock s = - 1 \<or> dump_lock s = cpu"
  shows "underscore_dump_stack auto_summary cpu s
     = Some (s\<lparr> printed := printed s @ [(cpu, auto_summary)] \<rparr>)"
  using assms
  by (subst underscore_dump_stack.simps)
     (auto simp add: atomic_cmpxchg_def dump_stack_tail_def print_dump_stack_def Let_def)

theorem dump_stack_restores_lock_witness:
  "(dump_lock ex_dump_state = - 1 \<or> dump_lock ex_dump_state = 2) \<and>
   underscore_dump_stack False 2 ex_dump_state
     = Some (ex_dump_state\<lparr> printed := printed ex_dump_state @ [(2, False)] \<rparr>)"
proof -
  have h: "dump_lock ex_dump_state = - 1 \<or> dump_lock ex_dump_state = 2"
    by (simp add: ex_dump_state_def)
  from dump_stack_restores_lock [OF h] h show ?thesis by blast
qed

text \<open>From the initial value of the lock, a dump on CPU 0 leaves it free.\<close>

lemma dump_stack_free_lock:
  "map_option dump_lock (underscore_dump_stack True 0
      \<lparr> dump_lock = dump_lock_init, irqs_enabled = False, printed = [] \<rparr>) = Some (- 1)"
  by (subst underscore_dump_stack.simps)
     (simp add: atomic_cmpxchg_def dump_stack_tail_def print_dump_stack_def dump_lock_init_def)

end
